theory Spec2Isabelle
  imports Main
begin

section \<open>The identity and session core of \<open>src/lib/auth.ts\<close>\<close>

text \<open>
  The development embeds the TypeScript module \<open>src/lib/auth.ts\<close>: the password policy,
  the in-memory user registry and session store, and the register / login /
  authenticate / update / cleanup operations on them.

  Conventions of the embedding.
  \<^item> A JavaScript string is a \<open>string\<close>; one \<open>char\<close> stands for one UTF-16 code unit, so
    the model covers the strings whose code units lie below 256.
  \<^item> A \<open>Date\<close> is its \<open>getTime()\<close> value, an \<open>int\<close> of milliseconds.
  \<^item> A \<open>Map\<close> is an association list in insertion order.
  \<^item> A call of an exported function is one step on the module state. For \<open>registerUser\<close>
    the step is also given in its two halves, before and after the first \<open>await\<close>, where
    another call can run in between. The text written to the console is left out.
  \<^item> The clock, the random generator and the salt are inputs of each call.
  \<^item> The libraries \<open>bcryptjs\<close> and \<open>jose\<close> are not part of the repository; their
    functions are parameters, collected in the record \<open>deps\<close>. What the spec says of
    the token codec is modelled beside them, from the words of the spec.
  \<^item> Record fields keep the names of the source; where two interfaces share a field
    name, or a name is taken in HOL, the field carries a prefix (\<open>u_\<close> for \<open>User\<close>,
    \<open>tp_\<close> for \<open>TokenPayload\<close>, \<open>np_\<close> for \<open>NotificationPreferences\<close>, \<open>upd_\<close> for
    \<open>Partial<User>\<close>, \<open>res_\<close> for the result objects).
\<close>

subsection \<open>Regular expressions used by the validators\<close>

text \<open>
  A pattern is a backtracking matcher in continuation style: \<open>m k s\<close> holds when the
  pattern matches a prefix of \<open>s\<close> such that the continuation \<open>k\<close> accepts the rest.
\<close>

type_synonym matcher = "string \<Rightarrow> bool"

text \<open>A character class \<open>[...]\<close>: one code unit of the class.\<close>

fun re_class :: "(char \<Rightarrow> bool) \<Rightarrow> matcher \<Rightarrow> matcher" where
  "re_class cls k [] = False"
| "re_class cls k (c # cs) = (cls c \<and> k cs)"

text \<open>\<open>X*\<close> for a class \<open>X\<close>: any number of code units of the class.\<close>

fun re_star :: "(char \<Rightarrow> bool) \<Rightarrow> matcher \<Rightarrow> matcher" where
  "re_star cls k [] = k []"
| "re_star cls k (c # cs) = (k (c # cs) \<or> (cls c \<and> re_star cls k cs))"

text \<open>\<open>X+\<close> is \<open>XX*\<close>.\<close>

definition re_plus :: "(char \<Rightarrow> bool) \<Rightarrow> matcher \<Rightarrow> matcher" where
  "re_plus cls k = re_class cls (re_star cls k)"

text \<open>A positive lookahead \<open>(?=X)\<close> consumes nothing.\<close>

definition re_lookahead :: "(matcher \<Rightarrow> matcher) \<Rightarrow> matcher \<Rightarrow> matcher" where
  "re_lookahead m k s = (m (\<lambda>_. True) s \<and> k s)"

text \<open>\<open>$\<close> (without the \<open>m\<close> flag): the end of the input.\<close>

definition re_eos :: matcher where
  "re_eos s = (s = [])"

definition re_accept :: matcher where
  "re_accept s = True"

text \<open>
  \<open>RegExp.prototype.test\<close> without the sticky flag tries the pattern at every start index
  \<open>0 .. length\<close>. The flag tells the pattern whether it starts at index 0, which is
  what \<open>^\<close> asks for.
\<close>

fun re_search :: "(bool \<Rightarrow> matcher) \<Rightarrow> bool \<Rightarrow> string \<Rightarrow> bool" where
  "re_search m at0 [] = m at0 []"
| "re_search m at0 (c # cs) = (m at0 (c # cs) \<or> re_search m False cs)"

definition re_test :: "(bool \<Rightarrow> matcher) \<Rightarrow> string \<Rightarrow> bool" where
  "re_test m s = re_search m True s"

text \<open>The classes. \<open>.\<close> excludes the line terminators, \<open>\s\<close> is the white space.\<close>

definition is_line_terminator :: "char \<Rightarrow> bool" where
  "is_line_terminator c = (c = CHR 0x0A \<or> c = CHR 0x0D)"

definition re_dot :: "char \<Rightarrow> bool" where
  "re_dot c = (\<not> is_line_terminator c)"

definition is_space :: "char \<Rightarrow> bool" where
  "is_space c = (c \<in> set [CHR 0x09, CHR 0x0A, CHR 0x0B, CHR 0x0C, CHR 0x0D, CHR 0x20, CHR 0xA0])"

definition is_lower :: "char \<Rightarrow> bool" where
  "is_lower c = ((97::int) \<le> of_char c \<and> (of_char c :: int) \<le> 122)"

definition is_upper :: "char \<Rightarrow> bool" where
  "is_upper c = ((65::int) \<le> of_char c \<and> (of_char c :: int) \<le> 90)"

definition is_digit :: "char \<Rightarrow> bool" where
  "is_digit c = ((48::int) \<le> of_char c \<and> (of_char c :: int) \<le> 57)"

definition is_special :: "char \<Rightarrow> bool" where
  "is_special c = (c \<in> set ''@$!%*?&'')"

definition not_space_at :: "char \<Rightarrow> bool" where
  "not_space_at c = (\<not> is_space c \<and> c \<noteq> CHR ''@'')"

text \<open>\<open>/(?=.*[cls])/\<close>, the shape of the four character rules of the password policy.\<close>

definition contains_re :: "(char \<Rightarrow> bool) \<Rightarrow> bool \<Rightarrow> matcher" where
  "contains_re cls at0 = re_lookahead (\<lambda>k. re_star re_dot (re_class cls k)) re_accept"

text \<open>\<open>/^[^\s@]+@[^\s@]+\.[^\s@]+$/\<close>\<close>

definition emailRegex :: "bool \<Rightarrow> matcher" where
  "emailRegex at0 s =
     (at0 \<and> re_plus not_space_at
              (re_class (\<lambda>c. c = CHR ''@'')
                (re_plus not_space_at
                  (re_class (\<lambda>c. c = CHR ''.'')
                    (re_plus not_space_at re_eos)))) s)"

subsection \<open>Validators\<close>

definition validateEmail :: "string \<Rightarrow> bool" where
  "validateEmail email = re_test emailRegex email"

record validation =
  valid :: bool
  errors :: "string list"

definition validatePassword :: "string \<Rightarrow> validation" where
  "validatePassword password =
     (let errors0 = [];
          errors1 = (if length password < 8
                     then errors0 @ [''Password must be at least 8 characters long'']
                     else errors0);
          errors2 = (if \<not> re_test (contains_re is_lower) password
                     then errors1 @ [''Password must contain at least one lowercase letter'']
                     else errors1);
          errors3 = (if \<not> re_test (contains_re is_upper) password
                     then errors2 @ [''Password must contain at least one uppercase letter'']
                     else errors2);
          errors4 = (if \<not> re_test (contains_re is_digit) password
                     then errors3 @ [''Password must contain at least one number'']
                     else errors3);
          errors5 = (if \<not> re_test (contains_re is_special) password
                     then errors4 @ [''Password must contain at least one special character (@$!%*?&)'']
                     else errors4)
      in \<lparr>valid = (length errors5 = 0), errors = errors5\<rparr>)"

subsection \<open>Numbers and strings\<close>

text \<open>The decimal digits of a number, as a template literal renders \<open>Date.now()\<close>.\<close>

function dec_digits :: "int \<Rightarrow> string" where
  "dec_digits n = (if n < 10 then [char_of (48 + n)]
                   else dec_digits (n div 10) @ [char_of (48 + n mod 10)])"
  by pat_completeness auto
termination
  by (relation "measure nat") auto

declare dec_digits.simps [simp del]

definition number_toString :: "int \<Rightarrow> string" where
  "number_toString i = (if i < 0 then CHR ''-'' # dec_digits (- i) else dec_digits i)"

text \<open>\<open>Array.prototype.join\<close>\<close>

fun join :: "string \<Rightarrow> string list \<Rightarrow> string" where
  "join sep [] = []"
| "join sep [x] = x"
| "join sep (x # y # ys) = x @ sep @ join sep (y # ys)"

subsection \<open>Maps\<close>

text \<open>
  A \<open>Map\<close> keeps its entries in insertion order. \<open>set\<close> on a present key replaces the
  value where it stands, on a new key it appends the entry.
\<close>

type_synonym ('k, 'v) js_map = "('k \<times> 'v) list"

fun jsmap_get :: "('k, 'v) js_map \<Rightarrow> 'k \<Rightarrow> 'v option" where
  "jsmap_get [] k = None"
| "jsmap_get ((k', v) # m) k = (if k' = k then Some v else jsmap_get m k)"

fun jsmap_set :: "'k \<Rightarrow> 'v \<Rightarrow> ('k, 'v) js_map \<Rightarrow> ('k, 'v) js_map" where
  "jsmap_set k v [] = [(k, v)]"
| "jsmap_set k v ((k', v') # m) = (if k' = k then (k, v) # m else (k', v') # jsmap_set k v m)"

definition jsmap_delete :: "'k \<Rightarrow> ('k, 'v) js_map \<Rightarrow> ('k, 'v) js_map" where
  "jsmap_delete k m = filter (\<lambda>e. fst e \<noteq> k) m"

definition jsmap_values :: "('k, 'v) js_map \<Rightarrow> 'v list" where
  "jsmap_values m = map snd m"

definition jsmap_size :: "('k, 'v) js_map \<Rightarrow> nat" where
  "jsmap_size m = length m"

text \<open>The keys of a \<open>Map\<close> are pairwise different.\<close>

definition jsmap_wf :: "('k, 'v) js_map \<Rightarrow> bool" where
  "jsmap_wf m = distinct (map fst m)"

subsection \<open>Data model\<close>

datatype role = RoleAdmin | RoleUser

record notification_preferences =
  np_email :: bool
  sms :: bool
  billing :: bool
  maintenance :: bool
  security :: bool

record user_profile =
  company :: "string option"
  phone :: "string option"
  address :: "string option"
  timezone :: "string option"
  notificationPreferences :: "notification_preferences option"

text \<open>
  The interface \<open>User\<close>, and \<open>User & { password: string }\<close> as its extension. The spread
  in \<open>updateUser\<close> copies a key of \<open>updates\<close> that is present with the value \<open>undefined\<close>,
  so a stored \<open>email\<close>, \<open>name\<close>, \<open>role\<close> or \<open>createdAt\<close> can be \<open>undefined\<close>: these
  fields are options, \<open>None\<close> being \<open>undefined\<close>. The keys \<open>id\<close> and \<open>updatedAt\<close> are
  always written after the spread.
\<close>

record user =
  u_id :: string
  u_email :: "string option"
  u_name :: "string option"
  u_role :: "role option"
  createdAt :: "int option"
  updatedAt :: int
  profile :: "user_profile option"

record stored_user = user +
  password :: string

text \<open>
  \<open>Partial<User>\<close>: for every key, \<open>None\<close> is an absent key and \<open>Some v\<close> a present one,
  where \<open>v\<close> is a value or \<open>undefined\<close> (\<open>None\<close>).
\<close>

record user_updates =
  upd_id :: "string option option"
  upd_email :: "string option option"
  upd_name :: "string option option"
  upd_role :: "role option option"
  upd_createdAt :: "int option option"
  upd_updatedAt :: "int option option"
  upd_profile :: "user_profile option option"

record session =
  userId :: string
  expiresAt :: int

text \<open>
  \<open>TokenPayload\<close>, with the \<open>iat\<close> claim that the signer adds beside \<open>exp\<close>; both count
  seconds. \<open>email\<close> and \<open>role\<close> are copied from a stored record and can be \<open>undefined\<close>
  as they can be there.
\<close>

record token_payload =
  tp_userId :: string
  tp_email :: "string option"
  tp_role :: "role option"
  tp_iat :: "int option"
  tp_exp :: "int option"

text \<open>The two module-level maps.\<close>

record state =
  users :: "(string, stored_user) js_map"
  sessions :: "(string, session) js_map"

text \<open>\<open>{ success; user?; token?; error? }\<close> and \<open>{ success; user?; error? }\<close>\<close>

record auth_result =
  success :: bool
  res_user :: "user option"
  res_token :: "string option"
  res_error :: "string option"

record update_result =
  upd_success :: bool
  upd_user :: "user option"
  upd_error :: "string option"

text \<open>
  What one call reads from its environment: the clock at each place the source reads
  it, the digits \<open>Math.random().toString(36).substr(2, 9)\<close>, and the salt that the
  hashing draws.
\<close>

record effects =
  clock_sign :: int
  clock_id :: int
  random_id :: string
  clock_created :: int
  clock_updated :: int
  clock_expiry :: int
  salt :: string

subsection \<open>The external libraries\<close>

text \<open>Modelled from the spec: the error classes of the missing \<open>jose\<close> library, named as
  the failure kinds of the spec.\<close>

datatype jose_error = Malformed | BadSignature | Expired

text \<open>
  \<open>bcrypt_hash password rounds salt\<close> and \<open>bcrypt_compare password hash\<close> stand for
  \<open>bcrypt.hash\<close> and \<open>bcrypt.compare\<close>. \<open>jws_sign payload key\<close> is the signed compact
  encoding of a claim set (\<open>None\<close> when the signer throws); \<open>jws_verify token key\<close>
  checks the structure of a token and then its signature, and yields the claim set
  it carries. \<open>env_JWT_SECRET\<close> is the environment variable of that name.
\<close>

record deps =
  bcrypt_hash :: "string \<Rightarrow> nat \<Rightarrow> string \<Rightarrow> string"
  bcrypt_compare :: "string \<Rightarrow> string \<Rightarrow> bool"
  jws_sign :: "token_payload \<Rightarrow> string \<Rightarrow> string option"
  jws_verify :: "string \<Rightarrow> string \<Rightarrow> jose_error + token_payload"
  env_JWT_SECRET :: "string option"

definition JWT_SECRET :: "deps \<Rightarrow> string" where
  "JWT_SECRET D =
     (case env_JWT_SECRET D of
        None \<Rightarrow> ''default-secret-key''
      | Some v \<Rightarrow> if v = [] then ''default-secret-key'' else v)"

text \<open>
  The token codec of the \<open>jose\<close> library (\<open>SignJWT\<close>, \<open>jwtVerify\<close>) is not under \<open>src/\<close>;
  the five definitions that follow model its handling of time from the spec.
\<close>

text \<open>Modelled from the spec: the \<open>jose\<close> library is missing; the times \<open>issuedAt\<close> and
  \<open>expiresAt\<close> of a token payload count whole seconds, a \<open>Date\<close> counts milliseconds.\<close>

definition epoch :: "int \<Rightarrow> int" where
  "epoch ms = ms div 1000"

text \<open>Modelled from the spec: the \<open>jose\<close> library is missing; the span \<open>'24h'\<close> is
  \<open>hours 24\<close> seconds.\<close>

definition hours :: "int \<Rightarrow> int" where
  "hours n = n * 60 * 60"

text \<open>Modelled from the spec: \<open>SignJWT.setIssuedAt\<close> of the missing \<open>jose\<close> library; the
  payload carries \<open>issuedAt\<close>, the time of issuance.\<close>

definition setIssuedAt :: "int \<Rightarrow> token_payload \<Rightarrow> token_payload" where
  "setIssuedAt now p = p\<lparr>tp_iat := Some (epoch now)\<rparr>"

text \<open>Modelled from the spec: \<open>SignJWT.setExpirationTime\<close> of the missing \<open>jose\<close> library;
  the payload carries \<open>expiresAt\<close>, a fixed validity window after issuance.\<close>

definition setExpirationTime :: "int \<Rightarrow> int \<Rightarrow> token_payload \<Rightarrow> token_payload" where
  "setExpirationTime span now p = p\<lparr>tp_exp := Some (epoch now + span)\<rparr>"

text \<open>Modelled from the spec: \<open>jwtVerify\<close> of the missing \<open>jose\<close> library; failure kinds
  are checked in this order: malformed structure, signature mismatch (both inside
  \<open>jws_verify\<close>), then signature valid but \<open>now > expiresAt\<close>.\<close>

definition jwtVerify :: "deps \<Rightarrow> string \<Rightarrow> string \<Rightarrow> int \<Rightarrow> jose_error + token_payload" where
  "jwtVerify D token key now =
     (case jws_verify D token key of
        Inl e \<Rightarrow> Inl e
      | Inr p \<Rightarrow>
          (case tp_exp p of
             None \<Rightarrow> Inr p
           | Some e \<Rightarrow> if epoch now > e then Inl Expired else Inr p))"

text \<open>
  The contract of the library that the statements about issued tokens rely on: when the
  signer issues a token for a claim set, the verification with the same key accepts that
  token and yields the claim set.
\<close>

definition jws_roundtrip :: "deps \<Rightarrow> token_payload \<Rightarrow> string \<Rightarrow> bool" where
  "jws_roundtrip D claims key =
     (case jws_sign D claims key of
        None \<Rightarrow> True
      | Some token \<Rightarrow> jws_verify D token key = Inr claims)"

subsection \<open>The token codec of the spec\<close>

text \<open>Modelled from the spec: the primitives of the codec of the missing \<open>jose\<close> library,
  from which the spec builds and checks a token; they stay parameters: the deterministic
  encoding of a payload, its decoding, and the keyed signature, whose length is fixed.\<close>

record codec =
  encode_claims :: "token_payload \<Rightarrow> string"
  decode_claims :: "string \<Rightarrow> token_payload option"
  keyed_signature :: "string \<Rightarrow> string \<Rightarrow> string"
  signature_length :: nat

text \<open>Modelled from the spec: signing in the missing \<open>jose\<close> library; it encodes the
  payload, then appends a keyed signature computed over the encoded payload using the
  secret.\<close>

definition compact_sign :: "codec \<Rightarrow> token_payload \<Rightarrow> string \<Rightarrow> string option" where
  "compact_sign C p key =
     (let body = encode_claims C p in Some (body @ keyed_signature C key body))"

text \<open>Modelled from the spec: the structure of a token of the missing \<open>jose\<close> library;
  the encoded payload, followed by the appended signature of fixed length.\<close>

definition token_body :: "codec \<Rightarrow> string \<Rightarrow> string" where
  "token_body C t = take (length t - signature_length C) t"

text \<open>Modelled from the spec: the appended signature of a token of the missing \<open>jose\<close>
  library.\<close>

definition token_signature :: "codec \<Rightarrow> string \<Rightarrow> string" where
  "token_signature C t = drop (length t - signature_length C) t"

text \<open>Modelled from the spec: verification in the missing \<open>jose\<close> library, before the
  expiry check of \<open>jwtVerify\<close>; it decodes, recomputes the signature over the decoded
  payload using the secret, and compares; a malformed structure is reported first, then
  a signature mismatch.\<close>

definition compact_verify :: "codec \<Rightarrow> string \<Rightarrow> string \<Rightarrow> jose_error + token_payload" where
  "compact_verify C t key =
     (if length t < signature_length C then Inl Malformed
      else
        (case decode_claims C (token_body C t) of
           None \<Rightarrow> Inl Malformed
         | Some p \<Rightarrow>
             if keyed_signature C key (encode_claims C p) \<noteq> token_signature C t
             then Inl BadSignature
             else Inr p))"

text \<open>The library functions of \<open>D\<close> are this codec.\<close>

definition uses_codec :: "deps \<Rightarrow> codec \<Rightarrow> bool" where
  "uses_codec D C = (jws_sign D = compact_sign C \<and> jws_verify D = compact_verify C)"

text \<open>Flipping bit \<open>j\<close> of the character at index \<open>i\<close> of a token.\<close>

fun flip_char_bit :: "nat \<Rightarrow> char \<Rightarrow> char" where
  "flip_char_bit j (Char b0 b1 b2 b3 b4 b5 b6 b7) =
     Char (b0 \<noteq> (j = 0)) (b1 \<noteq> (j = 1)) (b2 \<noteq> (j = 2)) (b3 \<noteq> (j = 3))
          (b4 \<noteq> (j = 4)) (b5 \<noteq> (j = 5)) (b6 \<noteq> (j = 6)) (b7 \<noteq> (j = 7))"

definition flip_token_bit :: "nat \<Rightarrow> nat \<Rightarrow> string \<Rightarrow> string" where
  "flip_token_bit i j t = t[i := flip_char_bit j (t ! i)]"

text \<open>Modelled from the spec: the contract of the primitives of the missing \<open>jose\<close>
  library, for the key and the claim set \<open>p\<close> that is signed; decoding the encoding of
  \<open>p\<close> yields \<open>p\<close>; the encoding is deterministic, so a string that decodes to a payload
  is the encoding of that payload; the signature of the encoded payload has the fixed
  length; and any tampering of payload bytes invalidates the signature, here for the
  tampering that flips one bit of the encoded payload.\<close>

definition codec_contract :: "codec \<Rightarrow> string \<Rightarrow> token_payload \<Rightarrow> bool" where
  "codec_contract C key p =
     (decode_claims C (encode_claims C p) = Some p
      \<and> (\<forall>b q. decode_claims C b = Some q \<longrightarrow> encode_claims C q = b)
      \<and> length (keyed_signature C key (encode_claims C p)) = signature_length C
      \<and> (\<forall>i j. i < length (encode_claims C p) \<and> j < 8 \<longrightarrow>
            keyed_signature C key (flip_token_bit i j (encode_claims C p))
              \<noteq> keyed_signature C key (encode_claims C p)))"

subsection \<open>Password and token utilities\<close>

definition hashPassword :: "deps \<Rightarrow> string \<Rightarrow> string \<Rightarrow> string" where
  "hashPassword D salt' password' = (let saltRounds = 12 in bcrypt_hash D password' saltRounds salt')"

definition verifyPassword :: "deps \<Rightarrow> string \<Rightarrow> string \<Rightarrow> bool" where
  "verifyPassword D password' hashedPassword = bcrypt_compare D password' hashedPassword"

text \<open>\<open>None\<close> is the \<open>Error('Failed to sign token')\<close> that \<open>signToken\<close> throws.\<close>

definition signToken :: "deps \<Rightarrow> int \<Rightarrow> token_payload \<Rightarrow> string option" where
  "signToken D now payload =
     jws_sign D (setExpirationTime (hours 24) now (setIssuedAt now payload)) (JWT_SECRET D)"

text \<open>Every error of the verification is caught and becomes \<open>null\<close>.\<close>

definition verifyToken :: "deps \<Rightarrow> int \<Rightarrow> string \<Rightarrow> token_payload option" where
  "verifyToken D now token =
     (case jwtVerify D token (JWT_SECRET D) now of
        Inr payload \<Rightarrow> Some payload
      | Inl error \<Rightarrow> None)"

definition generateSessionId :: "int \<Rightarrow> string \<Rightarrow> string" where
  "generateSessionId now rnd = ''session_'' @ number_toString now @ ''_'' @ rnd"

subsection \<open>The registry and the session store\<close>

text \<open>\<open>{ success: false, error: msg }\<close>\<close>

definition failure :: "string \<Rightarrow> auth_result" where
  "failure msg = \<lparr>success = False, res_user = None, res_token = None, res_error = Some msg\<rparr>"

text \<open>\<open>const { password: _, ...userWithoutPassword } = u\<close>\<close>

definition userWithoutPassword :: "stored_user \<Rightarrow> user" where
  "userWithoutPassword u = user.truncate u"

text \<open>\<open>Array.from(users.values()).find(u => u.email === email)\<close>\<close>

definition findByEmail :: "(string, stored_user) js_map \<Rightarrow> string \<Rightarrow> stored_user option" where
  "findByEmail m email = List.find (\<lambda>u. u_email u = Some email) (jsmap_values m)"

text \<open>The two seeded accounts; the clock readings and salts of the seeding are inputs.\<close>

definition initializeUsers ::
  "deps \<Rightarrow> string \<Rightarrow> int \<Rightarrow> int \<Rightarrow> string \<Rightarrow> int \<Rightarrow> int \<Rightarrow> state \<Rightarrow> state" where
  "initializeUsers D salt1 created1 updated1 salt2 created2 updated2 s =
     (if jsmap_size (users s) = 0 then
        let adminPassword = hashPassword D salt1 ''admin123!'';
            adminUser = \<lparr>u_id = ''1'', u_email = Some ''admin@cloudpro.dev'',
                         u_name = Some ''Admin User'',
                         u_role = Some RoleAdmin, createdAt = Some created1, updatedAt = updated1,
                         profile = Some \<lparr>company = Some ''CloudPro Demo'', phone = None,
                           address = None, timezone = Some ''UTC'',
                           notificationPreferences = Some \<lparr>np_email = True, sms = False,
                             billing = True, maintenance = True, security = True\<rparr>\<rparr>,
                         password = adminPassword\<rparr>;
            users1 = jsmap_set (u_id adminUser) adminUser (users s);
            userPassword = hashPassword D salt2 ''user123!'';
            demoUser = \<lparr>u_id = ''2'', u_email = Some ''user@demo.com'',
                        u_name = Some ''Demo User'',
                        u_role = Some RoleUser, createdAt = Some created2, updatedAt = updated2,
                        profile = Some \<lparr>company = Some ''Demo Company'', phone = None,
                          address = None, timezone = Some ''UTC'',
                          notificationPreferences = Some \<lparr>np_email = True, sms = False,
                            billing = True, maintenance = False, security = True\<rparr>\<rparr>,
                        password = userPassword\<rparr>
        in s\<lparr>users := jsmap_set (u_id demoUser) demoUser users1\<rparr>
      else s)"

definition authenticateUser ::
  "deps \<Rightarrow> effects \<Rightarrow> state \<Rightarrow> string \<Rightarrow> string \<Rightarrow> state \<times> auth_result" where
  "authenticateUser D E s email password' =
     (case findByEmail (users s) email of
        None \<Rightarrow> (s, failure ''Invalid credentials'')
      | Some foundUser \<Rightarrow>
          if \<not> verifyPassword D password' (password foundUser)
          then (s, failure ''Invalid credentials'')
          else
            let tokenPayload = \<lparr>tp_userId = u_id foundUser, tp_email = u_email foundUser,
                                tp_role = u_role foundUser, tp_iat = None, tp_exp = None\<rparr>
            in (case signToken D (clock_sign E) tokenPayload of
                  None \<Rightarrow> (s, failure ''Authentication failed'')
                | Some token \<Rightarrow>
                    let sessionId = generateSessionId (clock_id E) (random_id E);
                        expiresAt' = clock_expiry E + 24 * 60 * 60 * 1000;
                        s' = s\<lparr>sessions := jsmap_set sessionId
                                \<lparr>userId = u_id foundUser, expiresAt = expiresAt'\<rparr> (sessions s)\<rparr>
                    in (s', \<lparr>success = True, res_user = Some (userWithoutPassword foundUser),
                             res_token = Some token, res_error = None\<rparr>)))"

definition registerUser ::
  "deps \<Rightarrow> effects \<Rightarrow> state \<Rightarrow> string \<Rightarrow> string \<Rightarrow> string \<Rightarrow> state \<times> auth_result" where
  "registerUser D E s email password' name =
     (if \<not> validateEmail email then (s, failure ''Invalid email format'')
      else
        let passwordValidation = validatePassword password' in
        if \<not> valid passwordValidation
        then (s, failure (join '', '' (errors passwordValidation)))
        else
          case findByEmail (users s) email of
            Some existingUser \<Rightarrow> (s, failure ''User already exists'')
          | None \<Rightarrow>
              let hashedPassword = hashPassword D (salt E) password';
                  userId' = ''user_'' @ number_toString (clock_id E) @ ''_'' @ random_id E;
                  newUser = \<lparr>u_id = userId', u_email = Some email, u_name = Some name,
                             u_role = Some RoleUser,
                             createdAt = Some (clock_created E), updatedAt = clock_updated E,
                             profile = Some \<lparr>company = None, phone = None, address = None,
                               timezone = None,
                               notificationPreferences = Some \<lparr>np_email = True, sms = False,
                                 billing = True, maintenance = False, security = True\<rparr>\<rparr>,
                             password = hashedPassword\<rparr>;
                  s' = s\<lparr>users := jsmap_set userId' newUser (users s)\<rparr>;
                  tokenPayload = \<lparr>tp_userId = u_id newUser, tp_email = u_email newUser,
                                  tp_role = u_role newUser, tp_iat = None, tp_exp = None\<rparr>
              in (case signToken D (clock_sign E) tokenPayload of
                    None \<Rightarrow> (s', failure ''Registration failed'')
                  | Some token \<Rightarrow>
                      (s', \<lparr>success = True, res_user = Some (userWithoutPassword newUser),
                            res_token = Some token, res_error = None\<rparr>)))"

text \<open>
  \<open>registerUser\<close> suspends at \<open>await hashPassword(password)\<close>, after its checks and before
  it writes to \<open>users\<close>. The first half returns the early result, or \<open>None\<close> when the call
  reaches the \<open>await\<close>; the second half resumes on the state that it then finds.
\<close>

definition registerUser_before_await :: "state \<Rightarrow> string \<Rightarrow> string \<Rightarrow> auth_result option" where
  "registerUser_before_await s email password' =
     (if \<not> validateEmail email then Some (failure ''Invalid email format'')
      else
        let passwordValidation = validatePassword password' in
        if \<not> valid passwordValidation
        then Some (failure (join '', '' (errors passwordValidation)))
        else
          case findByEmail (users s) email of
            Some existingUser \<Rightarrow> Some (failure ''User already exists'')
          | None \<Rightarrow> None)"

definition registerUser_after_await ::
  "deps \<Rightarrow> effects \<Rightarrow> state \<Rightarrow> string \<Rightarrow> string \<Rightarrow> string \<Rightarrow> state \<times> auth_result" where
  "registerUser_after_await D E s email password' name =
     (let hashedPassword = hashPassword D (salt E) password';
          userId' = ''user_'' @ number_toString (clock_id E) @ ''_'' @ random_id E;
          newUser = \<lparr>u_id = userId', u_email = Some email, u_name = Some name,
                     u_role = Some RoleUser,
                     createdAt = Some (clock_created E), updatedAt = clock_updated E,
                     profile = Some \<lparr>company = None, phone = None, address = None,
                       timezone = None,
                       notificationPreferences = Some \<lparr>np_email = True, sms = False,
                         billing = True, maintenance = False, security = True\<rparr>\<rparr>,
                     password = hashedPassword\<rparr>;
          s' = s\<lparr>users := jsmap_set userId' newUser (users s)\<rparr>;
          tokenPayload = \<lparr>tp_userId = u_id newUser, tp_email = u_email newUser,
                          tp_role = u_role newUser, tp_iat = None, tp_exp = None\<rparr>
      in (case signToken D (clock_sign E) tokenPayload of
            None \<Rightarrow> (s', failure ''Registration failed'')
          | Some token \<Rightarrow>
              (s', \<lparr>success = True, res_user = Some (userWithoutPassword newUser),
                    res_token = Some token, res_error = None\<rparr>)))"

definition getUserById :: "state \<Rightarrow> string \<Rightarrow> user option" where
  "getUserById s userId' =
     (case jsmap_get (users s) userId' of
        None \<Rightarrow> None
      | Some u \<Rightarrow> Some (userWithoutPassword u))"

definition getUserByToken :: "deps \<Rightarrow> int \<Rightarrow> state \<Rightarrow> string \<Rightarrow> user option" where
  "getUserByToken D now s token =
     (case verifyToken D now token of
        None \<Rightarrow> None
      | Some payload \<Rightarrow> getUserById s (tp_userId payload))"

text \<open>
  \<open>{ ...user, ...updates, id: userId, updatedAt: new Date() }\<close>: a key of \<open>updates\<close> that
  is present replaces the key of \<open>user\<close>, also when its value is \<open>undefined\<close>; the keys
  \<open>id\<close> and \<open>updatedAt\<close> come last, so whatever \<open>updates\<close> holds for them is overwritten.
\<close>

definition merge_updates :: "stored_user \<Rightarrow> user_updates \<Rightarrow> string \<Rightarrow> int \<Rightarrow> stored_user" where
  "merge_updates u updates userId' now =
     u\<lparr>u_id := userId',
       u_email := (case upd_email updates of None \<Rightarrow> u_email u | Some v \<Rightarrow> v),
       u_name := (case upd_name updates of None \<Rightarrow> u_name u | Some v \<Rightarrow> v),
       u_role := (case upd_role updates of None \<Rightarrow> u_role u | Some v \<Rightarrow> v),
       createdAt := (case upd_createdAt updates of None \<Rightarrow> createdAt u | Some v \<Rightarrow> v),
       updatedAt := now,
       profile := (case upd_profile updates of None \<Rightarrow> profile u | Some v \<Rightarrow> v)\<rparr>"

definition updateUser ::
  "int \<Rightarrow> state \<Rightarrow> string \<Rightarrow> user_updates \<Rightarrow> state \<times> update_result" where
  "updateUser now s userId' updates =
     (case jsmap_get (users s) userId' of
        None \<Rightarrow> (s, \<lparr>upd_success = False, upd_user = None, upd_error = Some ''User not found''\<rparr>)
      | Some u \<Rightarrow>
          let updatedUser = merge_updates u updates userId' now
          in (s\<lparr>users := jsmap_set userId' updatedUser (users s)\<rparr>,
              \<lparr>upd_success = True, upd_user = Some (userWithoutPassword updatedUser),
               upd_error = None\<rparr>))"

text \<open>
  The loop of \<open>cleanupExpiredSessions\<close> visits every entry once and deletes the entry it
  stands on when that one has expired.
\<close>

fun cleanup_loop ::
  "int \<Rightarrow> (string, session) js_map \<Rightarrow> (string, session) js_map \<Rightarrow> (string, session) js_map" where
  "cleanup_loop now [] m = m"
| "cleanup_loop now ((sessionId, session) # rest) m =
     cleanup_loop now rest (if expiresAt session < now then jsmap_delete sessionId m else m)"

definition cleanupExpiredSessions :: "int \<Rightarrow> state \<Rightarrow> state" where
  "cleanupExpiredSessions now s = s\<lparr>sessions := cleanup_loop now (sessions s) (sessions s)\<rparr>"

subsection \<open>Properties of a registry\<close>

text \<open>No two stored records share an email.\<close>

definition unique_emails :: "(string, stored_user) js_map \<Rightarrow> bool" where
  "unique_emails m = distinct (map u_email (jsmap_values m))"

text \<open>Every record is stored under its own id, and the keys are pairwise different.\<close>

definition registry_wf :: "(string, stored_user) js_map \<Rightarrow> bool" where
  "registry_wf m = (jsmap_wf m \<and> list_all (\<lambda>e. u_id (snd e) = fst e) m)"

text \<open>Both maps of a state as the module keeps them.\<close>

definition state_wf :: "state \<Rightarrow> bool" where
  "state_wf s = (registry_wf (users s) \<and> jsmap_wf (sessions s))"

text \<open>
  The id and the record that \<open>registerUser\<close> builds, and the id that \<open>authenticateUser\<close>
  gives to the session, named for use in the statements.
\<close>

definition new_user_id :: "effects \<Rightarrow> string" where
  "new_user_id E = ''user_'' @ number_toString (clock_id E) @ ''_'' @ random_id E"

definition new_user :: "deps \<Rightarrow> effects \<Rightarrow> string \<Rightarrow> string \<Rightarrow> string \<Rightarrow> stored_user" where
  "new_user D E email password' name =
     \<lparr>u_id = new_user_id E, u_email = Some email, u_name = Some name, u_role = Some RoleUser,
      createdAt = Some (clock_created E), updatedAt = clock_updated E,
      profile = Some \<lparr>company = None, phone = None, address = None, timezone = None,
        notificationPreferences = Some \<lparr>np_email = True, sms = False, billing = True,
          maintenance = False, security = True\<rparr>\<rparr>,
      password = hashPassword D (salt E) password'\<rparr>"

definition new_session_id :: "effects \<Rightarrow> string" where
  "new_session_id E = generateSessionId (clock_id E) (random_id E)"

subsection \<open>A small instance of the libraries\<close>

text \<open>
  The theorems hold for every choice of the library functions. To run them on
  concrete inputs, this instance supplies a toy hash (a tagged, salted reversal of the
  password) and a toy token codec (comma-separated claims, a dot, a checksum of key and
  claims), which checks structure before signature as the parameter is described.
\<close>

definition demo_bcrypt_hash :: "string \<Rightarrow> nat \<Rightarrow> string \<Rightarrow> string" where
  "demo_bcrypt_hash pw rounds slt = ''$2a$'' @ dec_digits (int rounds) @ ''$'' @ slt @ rev pw"

definition demo_bcrypt_compare :: "string \<Rightarrow> string \<Rightarrow> bool" where
  "demo_bcrypt_compare pw h =
     (take 4 h = ''$2a$'' \<and> length pw < length h \<and> drop (length h - length pw) h = rev pw)"

fun split_on :: "char \<Rightarrow> string \<Rightarrow> string list" where
  "split_on sep [] = [] # []"
| "split_on sep (c # cs) =
     (if c = sep then [] # split_on sep cs
      else (case split_on sep cs of
              [] \<Rightarrow> [c] # []
            | w # ws \<Rightarrow> (c # w) # ws))"

definition parse_digits :: "string \<Rightarrow> int option" where
  "parse_digits ds =
     (if ds \<noteq> [] \<and> list_all is_digit ds
      then Some (foldl (\<lambda>n c. 10 * n + (of_char c - 48)) 0 ds)
      else None)"

definition parse_claim_time :: "string \<Rightarrow> int option option" where
  "parse_claim_time ds =
     (if ds = [] then Some None
      else (case parse_digits ds of None \<Rightarrow> None | Some n \<Rightarrow> Some (Some n)))"

definition show_claim_time :: "int option \<Rightarrow> string" where
  "show_claim_time t = (case t of None \<Rightarrow> [] | Some i \<Rightarrow> number_toString i)"

definition show_role :: "role option \<Rightarrow> string" where
  "show_role r = (case r of None \<Rightarrow> [] | Some RoleAdmin \<Rightarrow> ''admin'' | Some RoleUser \<Rightarrow> ''user'')"

definition parse_role :: "string \<Rightarrow> role option option" where
  "parse_role w = (if w = [] then Some None
                   else if w = ''admin'' then Some (Some RoleAdmin)
                   else if w = ''user'' then Some (Some RoleUser) else None)"

definition show_claim_text :: "string option \<Rightarrow> string" where
  "show_claim_text t = (case t of None \<Rightarrow> [] | Some w \<Rightarrow> w)"

definition parse_claim_text :: "string \<Rightarrow> string option" where
  "parse_claim_text w = (if w = [] then None else Some w)"

definition demo_encode :: "token_payload \<Rightarrow> string" where
  "demo_encode p =
     join '','' [tp_userId p, show_claim_text (tp_email p), show_role (tp_role p),
                show_claim_time (tp_iat p), show_claim_time (tp_exp p)]"

definition demo_decode :: "string \<Rightarrow> token_payload option" where
  "demo_decode body =
     (case split_on CHR '','' body of
        [a, b, c, d, e] \<Rightarrow>
          (case (parse_role c, parse_claim_time d, parse_claim_time e) of
             (Some r, Some i, Some x) \<Rightarrow>
               Some \<lparr>tp_userId = a, tp_email = parse_claim_text b, tp_role = r,
                     tp_iat = i, tp_exp = x\<rparr>
           | _ \<Rightarrow> None)
      | _ \<Rightarrow> None)"

definition demo_mac :: "string \<Rightarrow> string \<Rightarrow> string" where
  "demo_mac key body = dec_digits (sum_list (map of_char (key @ body)))"

definition demo_jws_sign :: "token_payload \<Rightarrow> string \<Rightarrow> string option" where
  "demo_jws_sign p key = Some (demo_encode p @ ''.'' @ demo_mac key (demo_encode p))"

definition demo_jws_verify :: "string \<Rightarrow> string \<Rightarrow> jose_error + token_payload" where
  "demo_jws_verify token key =
     (let parts = split_on CHR ''.'' token in
      if length parts < 2 then Inl Malformed
      else
        let body = join ''.'' (butlast parts); sig = last parts in
        (case demo_decode body of
           None \<Rightarrow> Inl Malformed
         | Some p \<Rightarrow> if demo_mac key body \<noteq> sig then Inl BadSignature else Inr p))"

definition demo_deps :: deps where
  "demo_deps = \<lparr>bcrypt_hash = demo_bcrypt_hash, bcrypt_compare = demo_bcrypt_compare,
                jws_sign = demo_jws_sign, jws_verify = demo_jws_verify,
                env_JWT_SECRET = None\<rparr>"

text \<open>
  An instance of the codec of the spec: the encoding of \<open>demo_encode\<close>, a decoding that
  accepts a string only when it is the encoding of what it reads from it, and a
  checksum of key and encoded payload, written with six digits, as the signature.
\<close>

definition strict_decode :: "string \<Rightarrow> token_payload option" where
  "strict_decode b =
     (case demo_decode b of
        None \<Rightarrow> None
      | Some p \<Rightarrow> if demo_encode p = b then Some p else None)"

definition checksum6 :: "string \<Rightarrow> string \<Rightarrow> string" where
  "checksum6 key body =
     (let d = dec_digits (sum_list (map of_char (key @ body)) mod 1000000)
      in replicate (6 - length d) CHR ''0'' @ d)"

definition demo_codec :: codec where
  "demo_codec = \<lparr>encode_claims = demo_encode, decode_claims = strict_decode,
                 keyed_signature = checksum6, signature_length = 6\<rparr>"

definition codec_deps :: deps where
  "codec_deps = demo_deps\<lparr>jws_sign := compact_sign demo_codec,
                          jws_verify := compact_verify demo_codec\<rparr>"

text \<open>The state after the seeding, and the environment of one later call.\<close>

definition demo_state :: state where
  "demo_state =
     initializeUsers demo_deps ''saltA'' 1000 1000 ''saltB'' 2000 2000 \<lparr>users = [], sessions = []\<rparr>"

definition demo_effects :: effects where
  "demo_effects = \<lparr>clock_sign = 5000, clock_id = 5001, random_id = ''k3j9x0q1z'',
                   clock_created = 5002, clock_updated = 5003, clock_expiry = 5004,
                   salt = ''saltC''\<rparr>"

text \<open>The environment of a second call, a millisecond later.\<close>

definition demo_effects_later :: effects where
  "demo_effects_later = \<lparr>clock_sign = 5010, clock_id = 5011, random_id = ''p7m2c8w4a'',
                         clock_created = 5012, clock_updated = 5013, clock_expiry = 5014,
                         salt = ''saltD''\<rparr>"

text \<open>An update that sets the email and nothing else.\<close>

definition demo_email_update :: "string \<Rightarrow> user_updates" where
  "demo_email_update e = \<lparr>upd_id = None, upd_email = Some (Some e), upd_name = None, upd_role = None,
     upd_createdAt = None, upd_updatedAt = None, upd_profile = None\<rparr>"

text \<open>A state with three sessions, for the sweep.\<close>

definition demo_sessions_state :: state where
  "demo_sessions_state =
     demo_state\<lparr>sessions :=
       [(''session_1_aaa'', \<lparr>userId = ''1'', expiresAt = 100\<rparr>),
        (''session_2_bbb'', \<lparr>userId = ''2'', expiresAt = 300\<rparr>),
        (''session_3_ccc'', \<lparr>userId = ''2'', expiresAt = 200\<rparr>)]\<rparr>"

text \<open>The public records of account 2 and of a newly registered account.\<close>

definition demo_account2 :: user where
  "demo_account2 =
     \<lparr>u_id = ''2'', u_email = Some ''user@demo.com'', u_name = Some ''Demo User'',
      u_role = Some RoleUser, createdAt = Some 2000, updatedAt = 2000,
      profile = Some \<lparr>company = Some ''Demo Company'', phone = None, address = None,
        timezone = Some ''UTC'',
        notificationPreferences = Some \<lparr>np_email = True, sms = False, billing = True,
          maintenance = False, security = True\<rparr>\<rparr>\<rparr>"

definition demo_registered :: user where
  "demo_registered =
     \<lparr>u_id = ''user_5001_k3j9x0q1z'', u_email = Some ''new@x.com'', u_name = Some ''New'',
      u_role = Some RoleUser, createdAt = Some 5002, updatedAt = 5003,
      profile = Some \<lparr>company = None, phone = None, address = None, timezone = None,
        notificationPreferences = Some \<lparr>np_email = True, sms = False, billing = True,
          maintenance = False, security = True\<rparr>\<rparr>\<rparr>"

text \<open>
  The payload that a login of account 2 signs, the token that the instance issues for it
  at the clock reading 5000, and the token that the codec of the spec issues for it at
  the same reading.
\<close>

definition demo_payload :: token_payload where
  "demo_payload = \<lparr>tp_userId = ''2'', tp_email = Some ''user@demo.com'', tp_role = Some RoleUser,
                   tp_iat = None, tp_exp = None\<rparr>"

definition demo_token :: string where
  "demo_token = ''2,user@demo.com,user,5,86405.4092''"

definition codec_token :: string where
  "codec_token = ''2,user@demo.com,user,5,86405004092''"

text \<open>The state after the login of account 2 in \<open>demo_state\<close> with \<open>demo_effects\<close>.\<close>

definition demo_logged_in_state :: state where
  "demo_logged_in_state =
     fst (authenticateUser demo_deps demo_effects demo_state ''user@demo.com'' ''user123!'')"

section \<open>Properties\<close>

subsection \<open>The password policy\<close>

lemma re_star_dot_class:
  "re_star re_dot (re_class cls (\<lambda>_. True)) s \<Longrightarrow> \<exists>c\<in>set s. cls c"
  by (induction s) auto

lemma re_search_contains:
  "re_search (contains_re cls) b s \<longleftrightarrow> (\<exists>c\<in>set s. cls c)"
proof (induction s arbitrary: b)
  case Nil
  then show ?case by (simp add: contains_re_def re_lookahead_def)
next
  case (Cons c cs)
  show ?case
  proof (cases "cls c")
    case True
    then show ?thesis by (simp add: contains_re_def re_lookahead_def re_accept_def)
  next
    case False
    have "contains_re cls b (c # cs) \<Longrightarrow> \<exists>x\<in>set cs. cls x"
      using False re_star_dot_class [of cls cs]
      by (auto simp: contains_re_def re_lookahead_def re_accept_def)
    with False Cons show ?thesis by auto
  qed
qed

lemma re_test_contains: "re_test (contains_re cls) s \<longleftrightarrow> (\<exists>c\<in>set s. cls c)"
  by (simp add: re_test_def re_search_contains)

text \<open>
  Claim C5. For every password, \<open>validatePassword\<close> returns exactly the violated rules,
  all of them and in the order of the rules: the length rule is reported when the
  password has fewer than 8 characters, and each of the four character rules when the
  password holds no lowercase letter, no uppercase letter, no digit, or no character
  of \<open>@$!%*?&\<close>; the result is valid exactly when no rule is violated. On \<open>short1\<close> the
  length violation is reported (with the two other rules it breaks), on \<open>Str0ng!Pass\<close>
  nothing is.
\<close>

theorem validatePassword_all_violations:
  "errors (validatePassword p) =
     map snd (filter (\<lambda>(ok, msg). \<not> ok)
       [(8 \<le> length p, ''Password must be at least 8 characters long''),
        (\<exists>c\<in>set p. is_lower c, ''Password must contain at least one lowercase letter''),
        (\<exists>c\<in>set p. is_upper c, ''Password must contain at least one uppercase letter''),
        (\<exists>c\<in>set p. is_digit c, ''Password must contain at least one number''),
        (\<exists>c\<in>set p. is_special c,
           ''Password must contain at least one special character (@$!%*?&)'')])
   \<and> (valid (validatePassword p) \<longleftrightarrow>
        8 \<le> length p \<and> (\<exists>c\<in>set p. is_lower c) \<and> (\<exists>c\<in>set p. is_upper c)
        \<and> (\<exists>c\<in>set p. is_digit c) \<and> (\<exists>c\<in>set p. is_special c))
   \<and> errors (validatePassword ''short1'') =
        [''Password must be at least 8 characters long'',
         ''Password must contain at least one uppercase letter'',
         ''Password must contain at least one special character (@$!%*?&)'']
   \<and> validatePassword ''Str0ng!Pass'' = \<lparr>valid = True, errors = []\<rparr>"
proof -
  have e: "errors (validatePassword q) =
     map snd (filter (\<lambda>(ok, msg). \<not> ok)
       [(8 \<le> length q, ''Password must be at least 8 characters long''),
        (\<exists>c\<in>set q. is_lower c, ''Password must contain at least one lowercase letter''),
        (\<exists>c\<in>set q. is_upper c, ''Password must contain at least one uppercase letter''),
        (\<exists>c\<in>set q. is_digit c, ''Password must contain at least one number''),
        (\<exists>c\<in>set q. is_special c,
           ''Password must contain at least one special character (@$!%*?&)'')])"
    for q
    by (simp add: validatePassword_def re_test_contains Let_def not_le)
  have v: "valid (validatePassword p) \<longleftrightarrow>
        8 \<le> length p \<and> (\<exists>c\<in>set p. is_lower c) \<and> (\<exists>c\<in>set p. is_upper c)
        \<and> (\<exists>c\<in>set p. is_digit c) \<and> (\<exists>c\<in>set p. is_special c)"
    by (simp add: validatePassword_def re_test_contains Let_def not_le)
  have s1: "errors (validatePassword ''short1'') =
        [''Password must be at least 8 characters long'',
         ''Password must contain at least one uppercase letter'',
         ''Password must contain at least one special character (@$!%*?&)'']"
    by (simp add: e is_lower_def is_upper_def is_digit_def is_special_def)
  have s2: "validatePassword ''Str0ng!Pass'' = \<lparr>valid = True, errors = []\<rparr>"
    by (simp add: validatePassword_def re_test_contains Let_def
        is_lower_def is_upper_def is_digit_def is_special_def)
  from e v s1 s2 show ?thesis by blast
qed

subsection \<open>Maps and the registry\<close>

lemma findByEmail_SomeD:
  "findByEmail m e = Some u \<Longrightarrow> u \<in> snd ` set m \<and> u_email u = Some e"
  by (auto simp: findByEmail_def jsmap_values_def find_Some_iff)

lemma values_jsmap_set:
  "snd ` set (jsmap_set k v m) \<subseteq> insert v (snd ` set m)"
  by (induction m) (force split: if_splits)+

lemma jsmap_get_set:
  "jsmap_get (jsmap_set k v m) k' = (if k' = k then Some v else jsmap_get m k')"
  by (induction m) auto

lemma jsmap_get_SomeD: "jsmap_get m k = Some v \<Longrightarrow> (k, v) \<in> set m"
  by (induction m) (auto split: if_splits)

lemma jsmap_set_fresh: "jsmap_get m k = None \<Longrightarrow> jsmap_set k v m = m @ [(k, v)]"
  by (induction m) (auto split: if_splits)

lemma keys_jsmap_set:
  "map fst (jsmap_set k v m) = (if k \<in> fst ` set m then map fst m else map fst m @ [k])"
  by (induction m) (force simp: image_iff)+

lemma jsmap_get_mem: "jsmap_get m k \<noteq> None \<Longrightarrow> k \<in> fst ` set m"
  by (induction m) (auto split: if_splits)

lemma jsmap_set_occupied:
  "jsmap_get m k \<noteq> None \<Longrightarrow> map fst (jsmap_set k v m) = map fst m"
  "jsmap_get m k \<noteq> None \<Longrightarrow> jsmap_size (jsmap_set k v m) = jsmap_size m"
proof -
  assume a: "jsmap_get m k \<noteq> None"
  show 1: "map fst (jsmap_set k v m) = map fst m"
    using jsmap_get_mem [OF a] by (simp add: keys_jsmap_set)
  have "length (map fst (jsmap_set k v m)) = length (map fst m)" by (simp only: 1)
  then show "jsmap_size (jsmap_set k v m) = jsmap_size m" by (simp add: jsmap_size_def)
qed

lemma jsmap_get_distinct:
  "distinct (map fst m) \<Longrightarrow> (k, v) \<in> set m \<Longrightarrow> jsmap_get m k = Some v"
  by (induction m) (auto simp: rev_image_eqI)

lemma findByEmail_jsmap_set_new:
  "findByEmail m e = None \<Longrightarrow> u_email v = Some e
   \<Longrightarrow> findByEmail (jsmap_set k v m) e = Some v"
  by (induction m) (auto simp: findByEmail_def jsmap_values_def split: if_splits)

lemma registry_wf_find_get:
  assumes "registry_wf m" "findByEmail m e = Some u"
  shows "jsmap_get m (u_id u) = Some u"
proof -
  from assms(2) obtain k where k: "(k, u) \<in> set m"
    using findByEmail_SomeD by fastforce
  with assms(1) have "u_id u = k"
    by (auto simp: registry_wf_def list_all_iff)
  with k assms(1) show ?thesis
    by (simp add: registry_wf_def jsmap_wf_def jsmap_get_distinct)
qed

subsection \<open>The operations, case by case\<close>

lemma registerUser_cases:
  "registerUser D E s email pw name =
     (if \<not> validateEmail email then (s, failure ''Invalid email format'')
      else if \<not> valid (validatePassword pw)
      then (s, failure (join '', '' (errors (validatePassword pw))))
      else if findByEmail (users s) email \<noteq> None then (s, failure ''User already exists'')
      else (s\<lparr>users := jsmap_set (new_user_id E) (new_user D E email pw name) (users s)\<rparr>,
            case signToken D (clock_sign E)
                   \<lparr>tp_userId = new_user_id E, tp_email = Some email, tp_role = Some RoleUser,
                    tp_iat = None, tp_exp = None\<rparr> of
              None \<Rightarrow> failure ''Registration failed''
            | Some token \<Rightarrow>
                \<lparr>success = True, res_user = Some (userWithoutPassword (new_user D E email pw name)),
                 res_token = Some token, res_error = None\<rparr>))"
  by (auto simp: registerUser_def new_user_def new_user_id_def Let_def split: option.splits)

lemma authenticateUser_cases:
  "authenticateUser D E s email pw =
     (case findByEmail (users s) email of
        None \<Rightarrow> (s, failure ''Invalid credentials'')
      | Some u \<Rightarrow>
          if \<not> verifyPassword D pw (password u) then (s, failure ''Invalid credentials'')
          else (case signToken D (clock_sign E)
                       \<lparr>tp_userId = u_id u, tp_email = u_email u, tp_role = u_role u,
                        tp_iat = None, tp_exp = None\<rparr> of
                  None \<Rightarrow> (s, failure ''Authentication failed'')
                | Some token \<Rightarrow>
                    (s\<lparr>sessions := jsmap_set (new_session_id E)
                          \<lparr>userId = u_id u, expiresAt = clock_expiry E + 86400000\<rparr> (sessions s)\<rparr>,
                     \<lparr>success = True, res_user = Some (userWithoutPassword u),
                      res_token = Some token, res_error = None\<rparr>)))"
  by (auto simp: authenticateUser_def new_session_id_def Let_def split: option.splits)

lemma updateUser_cases:
  "updateUser now s uid updates =
     (case jsmap_get (users s) uid of
        None \<Rightarrow> (s, \<lparr>upd_success = False, upd_user = None, upd_error = Some ''User not found''\<rparr>)
      | Some u \<Rightarrow>
          (s\<lparr>users := jsmap_set uid (merge_updates u updates uid now) (users s)\<rparr>,
           \<lparr>upd_success = True,
            upd_user = Some (userWithoutPassword (merge_updates u updates uid now)),
            upd_error = None\<rparr>))"
  by (simp add: updateUser_def Let_def split: option.splits)

lemma success_failure [simp]: "\<not> success (failure msg)"
  by (simp add: failure_def)

lemma register_success_state:
  assumes "registerUser D E s email pw name = (s', r)" "success r"
  shows "findByEmail (users s) email = None"
    and "users s' = jsmap_set (new_user_id E) (new_user D E email pw name) (users s)"
    and "sessions s' = sessions s"
    and "res_user r = Some (userWithoutPassword (new_user D E email pw name))"
    and "validateEmail email" and "valid (validatePassword pw)"
  using assms
  by (auto simp: registerUser_cases split: if_splits option.splits)

lemma authenticate_success_state:
  assumes "authenticateUser D E s email pw = (s', r)" "success r"
  shows "\<exists>u. findByEmail (users s) email = Some u
             \<and> verifyPassword D pw (password u)
             \<and> res_user r = Some (userWithoutPassword u)
             \<and> signToken D (clock_sign E)
                  \<lparr>tp_userId = u_id u, tp_email = u_email u, tp_role = u_role u,
                   tp_iat = None, tp_exp = None\<rparr> = res_token r
             \<and> res_token r \<noteq> None
             \<and> s' = s\<lparr>sessions := jsmap_set (new_session_id E)
                       \<lparr>userId = u_id u, expiresAt = clock_expiry E + 86400000\<rparr> (sessions s)\<rparr>"
  using assms
  by (auto simp: authenticateUser_cases split: if_splits option.splits)

lemma authenticate_failure_state:
  assumes "authenticateUser D E s email pw = (s', r)" "\<not> success r"
  shows "s' = s" and "res_user r = None"
  using assms
  by (auto simp: authenticateUser_cases failure_def split: if_splits option.splits)

lemma register_sessions:
  "sessions (fst (registerUser D E s email pw name)) = sessions s"
  by (simp add: registerUser_cases)

lemma userWithoutPassword_fields:
  "userWithoutPassword su =
     \<lparr>u_id = u_id su, u_email = u_email su, u_name = u_name su, u_role = u_role su,
      createdAt = createdAt su, updatedAt = updatedAt su, profile = profile su\<rparr>"
  by (simp add: userWithoutPassword_def user.truncate_def)

lemma jsmap_set_mem: "(k, v) \<in> set (jsmap_set k v m)"
  by (induction m) auto

subsection \<open>One record per email\<close>

text \<open>
  \<open>registerUser\<close> looks for a record with the email before it stores the new one: when
  a record has the email, in the very spelling stored, the call fails with
  \<open>'User already exists'\<close> and the state is the one before the call.
\<close>

lemma register_rejects_duplicate_email:
  assumes "validateEmail email" "valid (validatePassword pw)"
    and "findByEmail (users s) email = Some u"
  shows "registerUser D E s email pw name = (s, failure ''User already exists'')"
  using assms by (simp add: registerUser_cases)

text \<open>
  The check and the write of \<open>registerUser\<close> are the two halves of the call, with the
  \<open>await\<close> of the hashing between them. Two calls for the same email that both pass
  the check before either writes store two records with that email.
\<close>

lemma registerUser_split:
  "registerUser D E s email pw name =
     (case registerUser_before_await s email pw of
        Some r \<Rightarrow> (s, r)
      | None \<Rightarrow> registerUser_after_await D E s email pw name)"
  by (simp add: registerUser_def registerUser_before_await_def registerUser_after_await_def
      Let_def split: option.splits)

lemma overlapping_registrations_store_duplicate_email:
  "registerUser_before_await demo_state ''new@x.com'' ''Str0ng!Pass'' = None
   \<and> registerUser_before_await demo_state ''new@x.com'' ''An0ther!Pass'' = None
   \<and> success (snd (registerUser_after_await demo_deps demo_effects demo_state
         ''new@x.com'' ''Str0ng!Pass'' ''First''))
   \<and> success (snd (registerUser_after_await demo_deps demo_effects_later
         (fst (registerUser_after_await demo_deps demo_effects demo_state
            ''new@x.com'' ''Str0ng!Pass'' ''First''))
         ''new@x.com'' ''An0ther!Pass'' ''Second''))
   \<and> map (\<lambda>e. (fst e, u_email (snd e)))
        (users (fst (registerUser_after_await demo_deps demo_effects_later
         (fst (registerUser_after_await demo_deps demo_effects demo_state
            ''new@x.com'' ''Str0ng!Pass'' ''First''))
         ''new@x.com'' ''An0ther!Pass'' ''Second'')))
      = [(''1'', Some ''admin@cloudpro.dev''), (''2'', Some ''user@demo.com''),
         (''user_5001_k3j9x0q1z'', Some ''new@x.com''),
         (''user_5011_p7m2c8w4a'', Some ''new@x.com'')]"
  by code_simp

text \<open>
  \<open>updateUser\<close> copies every key of \<open>updates\<close> over the stored record, also a key whose
  value is \<open>undefined\<close>, and looks at no other record.
\<close>

lemma updateUser_copies_undefined_email:
  "upd_success (snd (updateUser 7000 demo_state ''2''
       ((demo_email_update [])\<lparr>upd_email := Some None\<rparr>)))
   \<and> map (\<lambda>e. (fst e, u_email (snd e)))
        (users (fst (updateUser 7000 demo_state ''2''
           ((demo_email_update [])\<lparr>upd_email := Some None\<rparr>))))
      = [(''1'', Some ''admin@cloudpro.dev''), (''2'', None)]"
  by code_simp

text \<open>
  Claim C1. The registry does not keep one record per email under \<open>updateUser\<close>. In the
  seeded registry, whose two records have different emails, the call
  \<open>updateUser('2', {email: 'admin@cloudpro.dev'})\<close> succeeds and stores the email of
  account 1 in the record of account 2: afterwards two records share the email
  \<open>admin@cloudpro.dev\<close>, and the search by email finds account 1 only.
\<close>

theorem updateUser_stores_duplicate_email:
  "unique_emails (users demo_state)
   \<and> upd_success (snd (updateUser 7000 demo_state ''2'' (demo_email_update ''admin@cloudpro.dev'')))
   \<and> map (\<lambda>e. (fst e, u_email (snd e)))
        (users (fst (updateUser 7000 demo_state ''2'' (demo_email_update ''admin@cloudpro.dev''))))
      = [(''1'', Some ''admin@cloudpro.dev''), (''2'', Some ''admin@cloudpro.dev'')]
   \<and> \<not> unique_emails (users (fst (updateUser 7000 demo_state ''2''
           (demo_email_update ''admin@cloudpro.dev''))))
   \<and> map_option u_id (findByEmail (users (fst (updateUser 7000 demo_state ''2''
           (demo_email_update ''admin@cloudpro.dev'')))) ''admin@cloudpro.dev'') = Some ''1''"
  by code_simp

subsection \<open>Login failures\<close>

text \<open>
  Claim C2. When no stored record has the email, or the stored hash of the record found
  does not verify against the supplied password, \<open>authenticateUser\<close> returns the same
  value \<open>{ success: false, error: 'Invalid credentials' }\<close> and leaves the state as it
  is: the two causes cannot be told apart.
\<close>

theorem login_failures_indistinguishable:
  "findByEmail (users s) email = None
   \<or> (\<exists>u. findByEmail (users s) email = Some u \<and> \<not> verifyPassword D pw (password u))
   \<Longrightarrow> authenticateUser D E s email pw = (s, failure ''Invalid credentials'')"
  by (auto simp: authenticateUser_cases)

theorem login_failures_indistinguishable_witness:
  "findByEmail (users demo_state) ''nouser@x.com'' = None
   \<and> authenticateUser demo_deps demo_effects demo_state ''nouser@x.com'' ''anything''
       = (demo_state, failure ''Invalid credentials'')
   \<and> (\<exists>u. findByEmail (users demo_state) ''user@demo.com'' = Some u
            \<and> \<not> verifyPassword demo_deps ''wrongpass'' (password u))
   \<and> authenticateUser demo_deps demo_effects demo_state ''user@demo.com'' ''wrongpass''
       = (demo_state, failure ''Invalid credentials'')"
proof -
  have h1: "findByEmail (users demo_state) ''nouser@x.com'' = None" by code_simp
  have "\<not> verifyPassword demo_deps ''wrongpass''
            (password (the (findByEmail (users demo_state) ''user@demo.com'')))"
    and "findByEmail (users demo_state) ''user@demo.com'' \<noteq> None"
    by code_simp+
  then have h2: "\<exists>u. findByEmail (users demo_state) ''user@demo.com'' = Some u
            \<and> \<not> verifyPassword demo_deps ''wrongpass'' (password u)"
    by auto
  from h1 h2
    login_failures_indistinguishable [where D = demo_deps and E = demo_effects
      and s = demo_state and email = "''nouser@x.com''" and pw = "''anything''"]
    login_failures_indistinguishable [where D = demo_deps and E = demo_effects
      and s = demo_state and email = "''user@demo.com''" and pw = "''wrongpass''"]
  show ?thesis by blast
qed

subsection \<open>The stored hash\<close>



subsection \<open>Sessions created by register and login\<close>

text \<open>
  The session id is \<open>session_\<close>, the clock reading in decimal, an underscore and the
  random digits. Two ids are equal only when both the clock readings and the random
  digits are.
\<close>

lemma of_char_digit: "0 \<le> d \<Longrightarrow> d < 10 \<Longrightarrow> (of_char (char_of (48 + d :: int)) :: int) = 48 + d"
  by (simp add: of_char_of)

lemma dec_digits_digits: "0 \<le> n \<Longrightarrow> list_all is_digit (dec_digits n)"
proof (induction n rule: dec_digits.induct)
  case (1 n)
  show ?case
  proof (cases "n < 10")
    case True
    with "1.prems" show ?thesis
      by (subst dec_digits.simps) (simp add: is_digit_def of_char_digit)
  next
    case False
    then have "0 \<le> n div 10" by simp
    with False "1.IH" have "list_all is_digit (dec_digits (n div 10))" by simp
    moreover have "is_digit (char_of (48 + n mod 10))"
      by (simp add: is_digit_def of_char_digit)
    ultimately show ?thesis using False
      by (subst dec_digits.simps) simp
  qed
qed

lemma dec_digits_value:
  "0 \<le> n \<Longrightarrow> foldl (\<lambda>a c. 10 * a + (of_char c - 48)) 0 (dec_digits n) = n"
proof (induction n rule: dec_digits.induct)
  case (1 n)
  show ?case
  proof (cases "n < 10")
    case True
    with "1.prems" show ?thesis
      by (subst dec_digits.simps) (simp add: of_char_digit)
  next
    case False
    then have "0 \<le> n div 10" by simp
    with False "1.IH"
    have "foldl (\<lambda>a c. 10 * a + (of_char c - 48)) 0 (dec_digits (n div 10)) = n div 10"
      by simp
    then show ?thesis using False
      by (subst dec_digits.simps) (simp add: of_char_digit)
  qed
qed

lemma dec_digits_inj: "0 \<le> m \<Longrightarrow> 0 \<le> n \<Longrightarrow> dec_digits m = dec_digits n \<Longrightarrow> m = n"
  by (metis dec_digits_value)

lemma number_toString_chars:
  "c \<in> set (number_toString i) \<Longrightarrow> is_digit c \<or> c = CHR ''-''"
  using dec_digits_digits [of i] dec_digits_digits [of "- i"]
  by (auto simp: number_toString_def list_all_iff split: if_splits)

lemma number_toString_inj: "number_toString i = number_toString j \<Longrightarrow> i = j"
proof -
  have neg: "CHR ''-'' # xs \<noteq> dec_digits n" if "0 \<le> n" for xs n
  proof
    assume "CHR ''-'' # xs = dec_digits n"
    then have "CHR ''-'' \<in> set (dec_digits n)" by (metis list.set_intros(1))
    with dec_digits_digits [OF that] have "is_digit CHR ''-''" by (simp add: list_all_iff)
    then show False by (simp add: is_digit_def)
  qed
  assume a: "number_toString i = number_toString j"
  show ?thesis
  proof (cases "i < 0")
    case True
    show ?thesis
    proof (cases "j < 0")
      case True
      with \<open>i < 0\<close> a have "dec_digits (- i) = dec_digits (- j)" by (simp add: number_toString_def)
      with True \<open>i < 0\<close> have "- i = - j" by (intro dec_digits_inj) simp_all
      then show ?thesis by simp
    next
      case False
      with True a neg [of j] show ?thesis by (simp add: number_toString_def)
    qed
  next
    case False
    show ?thesis
    proof (cases "j < 0")
      case True
      with False a neg [of i] show ?thesis by (simp add: number_toString_def) metis
    next
      case False
      with \<open>\<not> i < 0\<close> a show ?thesis by (simp add: number_toString_def dec_digits_inj)
    qed
  qed
qed

lemma split_at_separator:
  assumes "c \<notin> set a" "c \<notin> set b" "a @ c # x = b @ c # y"
  shows "a = b \<and> x = y"
proof -
  have "takeWhile (\<lambda>z. z \<noteq> c) (a @ c # x) = a" "takeWhile (\<lambda>z. z \<noteq> c) (b @ c # y) = b"
    using assms(1,2) by (subst takeWhile_append2; auto)+
  with assms(3) have "a = b" by simp
  with assms(3) show ?thesis by simp
qed

lemma generateSessionId_inj:
  "generateSessionId t r = generateSessionId t' r' \<longleftrightarrow> t = t' \<and> r = r'"
proof
  assume "generateSessionId t r = generateSessionId t' r'"
  then have e: "number_toString t @ CHR ''_'' # r = number_toString t' @ CHR ''_'' # r'"
    by (simp add: generateSessionId_def)
  have n: "CHR ''_'' \<notin> set (number_toString i)" for i
    using number_toString_chars [of "CHR ''_''" i] by (auto simp: is_digit_def)
  from split_at_separator [OF n n e] show "t = t' \<and> r = r'"
    by (auto dest: number_toString_inj)
qed simp

text \<open>
  Claim C9, as amended. \<open>registerUser\<close> leaves the session store unchanged. A successful
  \<open>authenticateUser\<close> leaves the registry alone and sets one session entry, under the
  generated session id, whose \<open>expiresAt\<close> is the clock reading plus 24 hours; every entry
  under another id is unmodified. When no entry has the generated id, the entry is new
  and the store grows by exactly this entry; when an entry has it, that entry is
  replaced and the store keeps its keys and its size. The generated id is built from the
  clock reading and the random digits of the call, and two generated ids coincide only
  when both coincide. A failed login changes nothing.
\<close>

theorem register_no_session_login_sets_one_session:
  "sessions (fst (registerUser D E s email pw name)) = sessions s
   \<and> (authenticateUser D E s email pw = (s', r) \<and> success r \<longrightarrow>
        users s' = users s
        \<and> (\<exists>u. findByEmail (users s) email = Some u
               \<and> sessions s' = jsmap_set (new_session_id E)
                    \<lparr>userId = u_id u, expiresAt = clock_expiry E + 24 * 60 * 60 * 1000\<rparr>
                    (sessions s))
        \<and> (\<exists>x. jsmap_get (sessions s') (new_session_id E) = Some x
               \<and> expiresAt x = clock_expiry E + 24 * 60 * 60 * 1000)
        \<and> (\<forall>k. k \<noteq> new_session_id E \<longrightarrow> jsmap_get (sessions s') k = jsmap_get (sessions s) k)
        \<and> (jsmap_get (sessions s) (new_session_id E) = None \<longrightarrow>
              (\<exists>x. sessions s' = sessions s @ [(new_session_id E, x)]
                   \<and> expiresAt x = clock_expiry E + 24 * 60 * 60 * 1000)
              \<and> jsmap_size (sessions s') = jsmap_size (sessions s) + 1)
        \<and> (jsmap_get (sessions s) (new_session_id E) \<noteq> None \<longrightarrow>
              map fst (sessions s') = map fst (sessions s)
              \<and> jsmap_size (sessions s') = jsmap_size (sessions s)))
   \<and> new_session_id E = generateSessionId (clock_id E) (random_id E)
   \<and> (generateSessionId t rnd = generateSessionId t' rnd' \<longleftrightarrow> t = t' \<and> rnd = rnd')
   \<and> (authenticateUser D E s email pw = (s', r) \<and> \<not> success r \<longrightarrow> s' = s)"
proof (intro conjI impI)
  show "sessions (fst (registerUser D E s email pw name)) = sessions s"
    by (rule register_sessions)
next
  show "new_session_id E = generateSessionId (clock_id E) (random_id E)"
    by (simp add: new_session_id_def)
next
  show "generateSessionId t rnd = generateSessionId t' rnd' \<longleftrightarrow> t = t' \<and> rnd = rnd'"
    by (rule generateSessionId_inj)
next
  assume "authenticateUser D E s email pw = (s', r) \<and> \<not> success r"
  then show "s' = s" using authenticate_failure_state(1) by blast
next
  assume a: "authenticateUser D E s email pw = (s', r) \<and> success r"
  then obtain u where u: "findByEmail (users s) email = Some u"
    and s': "s' = s\<lparr>sessions := jsmap_set (new_session_id E)
                       \<lparr>userId = u_id u, expiresAt = clock_expiry E + 86400000\<rparr> (sessions s)\<rparr>"
    using authenticate_success_state by blast
  show "users s' = users s" using s' by simp
  show "\<exists>u. findByEmail (users s) email = Some u
               \<and> sessions s' = jsmap_set (new_session_id E)
                    \<lparr>userId = u_id u, expiresAt = clock_expiry E + 24 * 60 * 60 * 1000\<rparr>
                    (sessions s)"
    using u s' by simp
  show "\<exists>x. jsmap_get (sessions s') (new_session_id E) = Some x
               \<and> expiresAt x = clock_expiry E + 24 * 60 * 60 * 1000"
    using s' by (simp add: jsmap_get_set)
  show "\<forall>k. k \<noteq> new_session_id E \<longrightarrow> jsmap_get (sessions s') k = jsmap_get (sessions s) k"
    using s' by (simp add: jsmap_get_set)
  {
    assume f: "jsmap_get (sessions s) (new_session_id E) = None"
    show "\<exists>x. sessions s' = sessions s @ [(new_session_id E, x)]
                   \<and> expiresAt x = clock_expiry E + 24 * 60 * 60 * 1000"
      using s' f by (simp add: jsmap_set_fresh)
    show "jsmap_size (sessions s') = jsmap_size (sessions s) + 1"
      using s' f by (simp add: jsmap_set_fresh jsmap_size_def)
  }
  {
    assume o: "jsmap_get (sessions s) (new_session_id E) \<noteq> None"
    show "map fst (sessions s') = map fst (sessions s)"
      using s' by (simp add: jsmap_set_occupied(1) [OF o])
    show "jsmap_size (sessions s') = jsmap_size (sessions s)"
      using s' by (simp add: jsmap_set_occupied(2) [OF o])
  }
qed

theorem register_no_session_login_sets_one_session_witness:
  "success (snd (authenticateUser demo_deps demo_effects demo_state ''user@demo.com'' ''user123!''))
   \<and> jsmap_get (sessions demo_state) (new_session_id demo_effects) = None
   \<and> success (snd (authenticateUser demo_deps demo_effects demo_logged_in_state
        ''admin@cloudpro.dev'' ''admin123!''))
   \<and> jsmap_get (sessions demo_logged_in_state) (new_session_id demo_effects) \<noteq> None
   \<and> \<not> success (snd (authenticateUser demo_deps demo_effects demo_state ''user@demo.com'' ''nope''))
   \<and> sessions (fst (registerUser demo_deps demo_effects demo_state
        ''new@x.com'' ''Str0ng!Pass'' ''New'')) = sessions demo_state
   \<and> jsmap_size (sessions (fst (authenticateUser demo_deps demo_effects demo_state
        ''user@demo.com'' ''user123!''))) = jsmap_size (sessions demo_state) + 1
   \<and> (\<exists>x. jsmap_get (sessions (fst (authenticateUser demo_deps demo_effects demo_state
              ''user@demo.com'' ''user123!''))) (new_session_id demo_effects) = Some x
          \<and> expiresAt x = clock_expiry demo_effects + 24 * 60 * 60 * 1000)
   \<and> jsmap_size (sessions (fst (authenticateUser demo_deps demo_effects demo_logged_in_state
        ''admin@cloudpro.dev'' ''admin123!''))) = jsmap_size (sessions demo_logged_in_state)
   \<and> generateSessionId 5001 ''k3j9x0q1z'' \<noteq> generateSessionId 5011 ''k3j9x0q1z''
   \<and> fst (authenticateUser demo_deps demo_effects demo_state ''user@demo.com'' ''nope'')
       = demo_state"
proof -
  have h1: "success (snd (authenticateUser demo_deps demo_effects demo_state
              ''user@demo.com'' ''user123!''))"
    by code_simp
  have h2: "jsmap_get (sessions demo_state) (new_session_id demo_effects) = None"
    by code_simp
  have h3: "\<not> success (snd (authenticateUser demo_deps demo_effects demo_state
              ''user@demo.com'' ''nope''))"
    by code_simp
  have h4: "success (snd (authenticateUser demo_deps demo_effects demo_logged_in_state
        ''admin@cloudpro.dev'' ''admin123!''))"
    by code_simp
  have h5: "jsmap_get (sessions demo_logged_in_state) (new_session_id demo_effects) \<noteq> None"
    by code_simp
  note t1 = register_no_session_login_sets_one_session [where D = demo_deps and E = demo_effects
      and s = demo_state and email = "''user@demo.com''" and pw = "''user123!''"
      and s' = "fst (authenticateUser demo_deps demo_effects demo_state
                  ''user@demo.com'' ''user123!'')"
      and r = "snd (authenticateUser demo_deps demo_effects demo_state
                  ''user@demo.com'' ''user123!'')"]
  note t2 = register_no_session_login_sets_one_session [where D = demo_deps and E = demo_effects
      and s = demo_state and email = "''user@demo.com''" and pw = "''nope''"
      and s' = "fst (authenticateUser demo_deps demo_effects demo_state
                  ''user@demo.com'' ''nope'')"
      and r = "snd (authenticateUser demo_deps demo_effects demo_state
                  ''user@demo.com'' ''nope'')"]
  note t3 = register_no_session_login_sets_one_session [where D = demo_deps and E = demo_effects
      and s = demo_state and email = "''new@x.com''" and pw = "''Str0ng!Pass''"
      and name = "''New''"]
  note t4 = register_no_session_login_sets_one_session [where D = demo_deps and E = demo_effects
      and s = demo_logged_in_state and email = "''admin@cloudpro.dev''" and pw = "''admin123!''"
      and s' = "fst (authenticateUser demo_deps demo_effects demo_logged_in_state
                  ''admin@cloudpro.dev'' ''admin123!'')"
      and r = "snd (authenticateUser demo_deps demo_effects demo_logged_in_state
                  ''admin@cloudpro.dev'' ''admin123!'')"]
  note t5 = register_no_session_login_sets_one_session [where t = 5001 and t' = 5011
      and rnd = "''k3j9x0q1z''" and rnd' = "''k3j9x0q1z''"]
  have c5: "generateSessionId 5001 ''k3j9x0q1z'' \<noteq> generateSessionId 5011 ''k3j9x0q1z''"
    using t5 by simp
  from h1 h2 h3 h4 h5 t1 t2 t3 t4 c5 show ?thesis by (simp only: prod.collapse simp_thms)
qed

text \<open>
  The claim as stated fails: a login that draws the session id of an entry in the store
  adds no entry. After the login of account 2, the login of account 1 with the same
  clock reading and random digits succeeds, the store still has one entry, and the
  entry under the id now belongs to account 1.
\<close>

theorem login_replaces_session_counterexample:
  "success (snd (authenticateUser demo_deps demo_effects demo_state ''user@demo.com'' ''user123!''))
   \<and> demo_logged_in_state
       = fst (authenticateUser demo_deps demo_effects demo_state ''user@demo.com'' ''user123!'')
   \<and> sessions demo_logged_in_state
       = [(''session_5001_k3j9x0q1z'', \<lparr>userId = ''2'', expiresAt = 86405004\<rparr>)]
   \<and> success (snd (authenticateUser demo_deps demo_effects demo_logged_in_state
        ''admin@cloudpro.dev'' ''admin123!''))
   \<and> sessions (fst (authenticateUser demo_deps demo_effects demo_logged_in_state
        ''admin@cloudpro.dev'' ''admin123!''))
       = [(''session_5001_k3j9x0q1z'', \<lparr>userId = ''1'', expiresAt = 86405004\<rparr>)]
   \<and> jsmap_size (sessions (fst (authenticateUser demo_deps demo_effects demo_logged_in_state
        ''admin@cloudpro.dev'' ''admin123!''))) = jsmap_size (sessions demo_logged_in_state)"
  by code_simp

subsection \<open>The role of a registered user\<close>

text \<open>
  Claim C10. When \<open>registerUser\<close> succeeds, the returned user and the stored record (found
  by the email, and stored under the new id) have the role \<open>user\<close>, and no other entry of
  the registry changes; whatever the outcome, every record with the role \<open>admin\<close> in the
  registry after the call was there before it.
\<close>

theorem register_assigns_role_user:
  "(registerUser D E s email pw name = (s', r) \<and> success r \<longrightarrow>
      (\<exists>u. res_user r = Some u \<and> u_role u = Some RoleUser)
      \<and> (\<exists>su. findByEmail (users s') email = Some su
              \<and> jsmap_get (users s') (new_user_id E) = Some su
              \<and> u_role su = Some RoleUser)
      \<and> (\<forall>k. k \<noteq> new_user_id E \<longrightarrow> jsmap_get (users s') k = jsmap_get (users s) k))
   \<and> (\<forall>su \<in> snd ` set (users (fst (registerUser D E s email pw name))).
         u_role su = Some RoleAdmin \<longrightarrow> su \<in> snd ` set (users s))"
proof (intro conjI impI ballI)
  assume a: "registerUser D E s email pw name = (s', r) \<and> success r"
  let ?u = "new_user D E email pw name"
  from a have a1: "registerUser D E s email pw name = (s', r)" and a2: "success r"
    by simp_all
  note f = register_success_state(1) [OF a1 a2]
    and s' = register_success_state(2) [OF a1 a2]
    and r = register_success_state(4) [OF a1 a2]
  show "\<exists>u. res_user r = Some u \<and> u_role u = Some RoleUser"
    using r by (simp add: userWithoutPassword_fields new_user_def)
  have "findByEmail (users s') email = Some ?u"
    using f s' by (simp add: findByEmail_jsmap_set_new new_user_def)
  moreover have "jsmap_get (users s') (new_user_id E) = Some ?u"
    using s' by (simp add: jsmap_get_set)
  moreover have "u_role ?u = Some RoleUser" by (simp add: new_user_def)
  ultimately show "\<exists>su. findByEmail (users s') email = Some su
              \<and> jsmap_get (users s') (new_user_id E) = Some su
              \<and> u_role su = Some RoleUser"
    by blast
  show "\<forall>k. k \<noteq> new_user_id E \<longrightarrow> jsmap_get (users s') k = jsmap_get (users s) k"
    using s' by (simp add: jsmap_get_set)
next
  fix su
  assume m: "su \<in> snd ` set (users (fst (registerUser D E s email pw name)))"
    and adm: "u_role su = Some RoleAdmin"
  have "snd ` set (users (fst (registerUser D E s email pw name)))
          \<subseteq> insert (new_user D E email pw name) (snd ` set (users s))"
    using values_jsmap_set [of "new_user_id E" "new_user D E email pw name" "users s"]
    by (auto simp: registerUser_cases)
  moreover have "u_role (new_user D E email pw name) \<noteq> Some RoleAdmin"
    by (simp add: new_user_def)
  ultimately show "su \<in> snd ` set (users s)"
    using m adm by auto
qed

theorem register_assigns_role_user_witness:
  "success (snd (registerUser demo_deps demo_effects demo_state ''new@x.com'' ''Str0ng!Pass'' ''New''))
   \<and> (\<exists>u. res_user (snd (registerUser demo_deps demo_effects demo_state
              ''new@x.com'' ''Str0ng!Pass'' ''New'')) = Some u \<and> u_role u = Some RoleUser)
   \<and> (\<exists>su. findByEmail (users (fst (registerUser demo_deps demo_effects demo_state
              ''new@x.com'' ''Str0ng!Pass'' ''New''))) ''new@x.com'' = Some su
          \<and> jsmap_get (users (fst (registerUser demo_deps demo_effects demo_state
              ''new@x.com'' ''Str0ng!Pass'' ''New''))) (new_user_id demo_effects) = Some su
          \<and> u_role su = Some RoleUser)
   \<and> snd (hd (users demo_state))
       \<in> snd ` set (users (fst (registerUser demo_deps demo_effects demo_state
              ''new@x.com'' ''Str0ng!Pass'' ''New'')))
   \<and> u_role (snd (hd (users demo_state))) = Some RoleAdmin
   \<and> snd (hd (users demo_state)) \<in> snd ` set (users demo_state)"
proof -
  have h1: "success (snd (registerUser demo_deps demo_effects demo_state
              ''new@x.com'' ''Str0ng!Pass'' ''New''))"
    by code_simp
  have h2: "snd (hd (users demo_state))
       \<in> snd ` set (users (fst (registerUser demo_deps demo_effects demo_state
              ''new@x.com'' ''Str0ng!Pass'' ''New'')))"
    by code_simp
  have h3: "u_role (snd (hd (users demo_state))) = Some RoleAdmin"
    by code_simp
  note t = register_assigns_role_user [THEN conjunct1, THEN mp, OF conjI,
      OF surjective_pairing h1]
  note b = register_assigns_role_user [THEN conjunct2, THEN bspec, THEN mp, OF h2 h3]
  from h1 t [THEN conjunct1] t [THEN conjunct2, THEN conjunct1] h2 h3 b show ?thesis
    by (intro conjI)
qed

subsection \<open>The sweep of expired sessions\<close>

lemma cleanup_loop_filter:
  "cleanup_loop now es m =
     filter (\<lambda>e. \<not> (\<exists>x. (fst e, x) \<in> set es \<and> expiresAt x < now)) m"
proof (induction es arbitrary: m)
  case Nil
  then show ?case by simp
next
  case (Cons a es)
  obtain k x where a: "a = (k, x)" by (cases a)
  show ?case
    unfolding a by (auto simp: Cons.IH jsmap_delete_def intro!: filter_cong)
qed

lemma cleanup_remaining:
  assumes "e \<in> set (cleanup_loop now m m)"
  shows "e \<in> set m" and "now \<le> expiresAt (snd e)"
proof -
  from assms have m: "e \<in> set m"
    and n: "\<not> (\<exists>x. (fst e, x) \<in> set m \<and> expiresAt x < now)"
    by (simp_all add: cleanup_loop_filter)
  show "e \<in> set m" by (rule m)
  from m have "(fst e, snd e) \<in> set m" by simp
  with n have "\<not> expiresAt (snd e) < now" by blast
  then show "now \<le> expiresAt (snd e)" by simp
qed

lemma cleanup_loop_idem:
  "cleanup_loop now (cleanup_loop now m m) (cleanup_loop now m m) = cleanup_loop now m m"
proof -
  let ?r = "cleanup_loop now m m"
  have "\<not> (\<exists>x. (fst e, x) \<in> set ?r \<and> expiresAt x < now)" for e
    using cleanup_remaining(2) [of _ now m] by fastforce
  then have "filter (\<lambda>e. \<not> (\<exists>x. (fst e, x) \<in> set ?r \<and> expiresAt x < now)) ?r = ?r"
    by (simp only: filter_id_conv) blast
  then show ?thesis
    by (subst cleanup_loop_filter)
qed

lemma cleanup_loop_wf:
  assumes "distinct (map fst m)"
  shows "cleanup_loop now m m = filter (\<lambda>e. \<not> expiresAt (snd e) < now) m"
proof -
  have "(\<exists>x. (fst e, x) \<in> set m \<and> expiresAt x < now) \<longleftrightarrow> expiresAt (snd e) < now"
    if e: "e \<in> set m" for e
  proof
    assume "\<exists>x. (fst e, x) \<in> set m \<and> expiresAt x < now"
    then obtain x where x: "(fst e, x) \<in> set m" "expiresAt x < now" by blast
    from e have "(fst e, snd e) \<in> set m" by simp
    with assms x(1) have "x = snd e"
      by (rule eq_key_imp_eq_value)
    with x(2) show "expiresAt (snd e) < now" by simp
  next
    assume "expiresAt (snd e) < now"
    moreover from e have "(fst e, snd e) \<in> set m" by simp
    ultimately show "\<exists>x. (fst e, x) \<in> set m \<and> expiresAt x < now" by blast
  qed
  then show ?thesis
    unfolding cleanup_loop_filter by (intro filter_cong) auto
qed

text \<open>
  Claim C8. After \<open>cleanupExpiredSessions\<close> has run with the clock reading \<open>now\<close>, every
  remaining session has \<open>expiresAt >= now\<close> and was in the store before; on a store whose
  keys are pairwise different (as the keys of a \<open>Map\<close> are) the entries removed are
  exactly those with \<open>expiresAt < now\<close>; a second run with the same \<open>now\<close> changes nothing;
  the registry is not touched.
\<close>

theorem sweep_removes_expired:
  "(\<forall>e \<in> set (sessions (cleanupExpiredSessions now s)). now \<le> expiresAt (snd e))
   \<and> set (sessions (cleanupExpiredSessions now s)) \<subseteq> set (sessions s)
   \<and> (jsmap_wf (sessions s) \<longrightarrow>
        sessions (cleanupExpiredSessions now s)
          = filter (\<lambda>e. \<not> expiresAt (snd e) < now) (sessions s))
   \<and> cleanupExpiredSessions now (cleanupExpiredSessions now s) = cleanupExpiredSessions now s
   \<and> users (cleanupExpiredSessions now s) = users s"
proof (intro conjI ballI impI subsetI)
  fix e
  assume "e \<in> set (sessions (cleanupExpiredSessions now s))"
  then have e: "e \<in> set (cleanup_loop now (sessions s) (sessions s))"
    by (simp add: cleanupExpiredSessions_def)
  show "now \<le> expiresAt (snd e)" using cleanup_remaining(2) [OF e] .
  show "e \<in> set (sessions s)" using cleanup_remaining(1) [OF e] .
next
  assume "jsmap_wf (sessions s)"
  then show "sessions (cleanupExpiredSessions now s)
          = filter (\<lambda>e. \<not> expiresAt (snd e) < now) (sessions s)"
    by (simp add: cleanupExpiredSessions_def jsmap_wf_def cleanup_loop_wf)
next
  show "cleanupExpiredSessions now (cleanupExpiredSessions now s) = cleanupExpiredSessions now s"
    by (simp add: cleanupExpiredSessions_def cleanup_loop_idem)
  show "users (cleanupExpiredSessions now s) = users s"
    by (simp add: cleanupExpiredSessions_def)
qed

theorem sweep_removes_expired_witness:
  "jsmap_wf (sessions demo_sessions_state)
   \<and> sessions (cleanupExpiredSessions 200 demo_sessions_state)
       = [(''session_2_bbb'', \<lparr>userId = ''2'', expiresAt = 300\<rparr>),
          (''session_3_ccc'', \<lparr>userId = ''2'', expiresAt = 200\<rparr>)]
   \<and> (''session_3_ccc'', \<lparr>userId = ''2'', expiresAt = 200\<rparr>)
       \<in> set (sessions (cleanupExpiredSessions 200 demo_sessions_state))
   \<and> 200 \<le> expiresAt (snd (''session_3_ccc'', \<lparr>userId = ''2'', expiresAt = 200\<rparr>))
   \<and> cleanupExpiredSessions 200 (cleanupExpiredSessions 200 demo_sessions_state)
       = cleanupExpiredSessions 200 demo_sessions_state"
proof -
  have h: "jsmap_wf (sessions demo_sessions_state)" by code_simp
  have f: "filter (\<lambda>e. \<not> expiresAt (snd e) < 200) (sessions demo_sessions_state)
       = [(''session_2_bbb'', \<lparr>userId = ''2'', expiresAt = 300\<rparr>),
          (''session_3_ccc'', \<lparr>userId = ''2'', expiresAt = 200\<rparr>)]"
    by code_simp
  note t = sweep_removes_expired [of 200 demo_sessions_state]
  from t h have "sessions (cleanupExpiredSessions 200 demo_sessions_state)
          = filter (\<lambda>e. \<not> expiresAt (snd e) < 200) (sessions demo_sessions_state)"
    by (simp only: simp_thms)
  with f have r: "sessions (cleanupExpiredSessions 200 demo_sessions_state)
       = [(''session_2_bbb'', \<lparr>userId = ''2'', expiresAt = 300\<rparr>),
          (''session_3_ccc'', \<lparr>userId = ''2'', expiresAt = 200\<rparr>)]"
    by simp
  then have m: "(''session_3_ccc'', \<lparr>userId = ''2'', expiresAt = 200\<rparr>)
       \<in> set (sessions (cleanupExpiredSessions 200 demo_sessions_state))"
    by simp
  from t m have "200 \<le> expiresAt (snd (''session_3_ccc'', \<lparr>userId = ''2'', expiresAt = 200\<rparr>))"
    by blast
  with h r m t show ?thesis by (intro conjI) simp_all
qed

subsection \<open>Well-formed states\<close>

text \<open>
  The seeding yields a state in which every record is stored under its own id and the
  keys of both maps are pairwise different, and every operation keeps such a state.
\<close>

lemma jsmap_wf_set: "jsmap_wf m \<Longrightarrow> jsmap_wf (jsmap_set k v m)"
  by (simp add: jsmap_wf_def keys_jsmap_set)

lemma jsmap_wf_cleanup_loop: "jsmap_wf m \<Longrightarrow> jsmap_wf (cleanup_loop now es m)"
  by (simp add: jsmap_wf_def cleanup_loop_filter distinct_map_filter)

lemma list_all_jsmap_set:
  "list_all P m \<Longrightarrow> P (k, v) \<Longrightarrow> list_all P (jsmap_set k v m)"
  by (induction m) auto

lemma registry_wf_set:
  "registry_wf m \<Longrightarrow> u_id v = k \<Longrightarrow> registry_wf (jsmap_set k v m)"
  by (simp add: registry_wf_def jsmap_wf_set list_all_jsmap_set)

lemma state_wf_preserved:
  "state_wf (initializeUsers D s1 c1 u1 s2 c2 u2 \<lparr>users = [], sessions = []\<rparr>)"
  "state_wf s \<Longrightarrow> state_wf (fst (registerUser D E s email pw name))"
  "state_wf s \<Longrightarrow> state_wf (fst (authenticateUser D E s email pw))"
  "state_wf s \<Longrightarrow> state_wf (fst (updateUser now s uid updates))"
  "state_wf s \<Longrightarrow> state_wf (cleanupExpiredSessions now s)"
proof -
  show "state_wf (initializeUsers D s1 c1 u1 s2 c2 u2 \<lparr>users = [], sessions = []\<rparr>)"
    by (simp add: state_wf_def registry_wf_def jsmap_wf_def initializeUsers_def
        jsmap_size_def Let_def)
  show "state_wf s \<Longrightarrow> state_wf (fst (registerUser D E s email pw name))"
    by (simp add: state_wf_def registerUser_cases registry_wf_set new_user_def)
  show "state_wf s \<Longrightarrow> state_wf (fst (authenticateUser D E s email pw))"
    by (simp add: state_wf_def authenticateUser_cases jsmap_wf_set split: option.splits)
  show "state_wf s \<Longrightarrow> state_wf (fst (updateUser now s uid updates))"
    by (simp add: state_wf_def updateUser_cases registry_wf_set merge_updates_def
        split: option.splits)
  show "state_wf s \<Longrightarrow> state_wf (cleanupExpiredSessions now s)"
    by (simp add: state_wf_def cleanupExpiredSessions_def jsmap_wf_cleanup_loop)
qed

subsection \<open>Token verification\<close>

text \<open>
  Flipping a bit of a character changes it, and flipping one bit of a token changes
  either its encoded payload or its signature.
\<close>

lemma flip_char_bit_neq: "j < 8 \<Longrightarrow> flip_char_bit j c \<noteq> c"
  by (cases c) auto

lemma length_flip_token_bit [simp]: "length (flip_token_bit i j t) = length t"
  by (simp add: flip_token_bit_def)

lemma flip_token_bit_neq: "i < length t \<Longrightarrow> j < 8 \<Longrightarrow> flip_token_bit i j t \<noteq> t"
proof
  assume a: "i < length t" "j < 8" and e: "flip_token_bit i j t = t"
  have "flip_token_bit i j t ! i = flip_char_bit j (t ! i)"
    using a by (simp add: flip_token_bit_def)
  with e have "flip_char_bit j (t ! i) = t ! i" by simp
  with flip_char_bit_neq [OF a(2)] show False by blast
qed

lemma flip_token_bit_append:
  "flip_token_bit i j (b @ sg) =
     (if i < length b then flip_token_bit i j b @ sg else b @ flip_token_bit (i - length b) j sg)"
  by (simp add: flip_token_bit_def list_update_append nth_append)

lemma token_parts:
  "length sg = signature_length C \<Longrightarrow> token_body C (b @ sg) = b"
  "length sg = signature_length C \<Longrightarrow> token_signature C (b @ sg) = sg"
  by (simp_all add: token_body_def token_signature_def)

lemma compact_verify_parts:
  "length sg = signature_length C \<Longrightarrow>
   compact_verify C (b @ sg) key =
     (case decode_claims C b of
        None \<Rightarrow> Inl Malformed
      | Some p \<Rightarrow>
          if keyed_signature C key (encode_claims C p) \<noteq> sg then Inl BadSignature else Inr p)"
  by (simp add: compact_verify_def token_parts split: option.splits)

lemma compact_verify_flipped:
  assumes c: "codec_contract C key p"
    and i: "i < length (encode_claims C p @ keyed_signature C key (encode_claims C p))"
    and j: "j < 8"
  shows "compact_verify C
           (flip_token_bit i j (encode_claims C p @ keyed_signature C key (encode_claims C p))) key
         = Inl Malformed
       \<or> compact_verify C
           (flip_token_bit i j (encode_claims C p @ keyed_signature C key (encode_claims C p))) key
         = Inl BadSignature"
proof -
  define b where "b = encode_claims C p"
  define sg where "sg = keyed_signature C key b"
  have rt: "decode_claims C b = Some p"
    and canon: "\<And>b' q. decode_claims C b' = Some q \<Longrightarrow> encode_claims C q = b'"
    and len: "length sg = signature_length C"
    and sens: "\<And>i j. i < length b \<Longrightarrow> j < 8 \<Longrightarrow> keyed_signature C key (flip_token_bit i j b) \<noteq> sg"
    using c by (simp_all add: codec_contract_def b_def sg_def)
  have i': "i < length (b @ sg)" using i by (simp add: b_def sg_def)
  have "compact_verify C (flip_token_bit i j (b @ sg)) key = Inl Malformed
        \<or> compact_verify C (flip_token_bit i j (b @ sg)) key = Inl BadSignature"
  proof (cases "i < length b")
    case True
    have v: "compact_verify C (flip_token_bit i j (b @ sg)) key =
      (case decode_claims C (flip_token_bit i j b) of
        None \<Rightarrow> Inl Malformed
      | Some q \<Rightarrow>
          if keyed_signature C key (encode_claims C q) \<noteq> sg then Inl BadSignature else Inr q)"
      using True len by (simp add: flip_token_bit_append compact_verify_parts)
    show ?thesis
    proof (cases "decode_claims C (flip_token_bit i j b)")
      case None
      then show ?thesis using v by simp
    next
      case (Some q)
      have "encode_claims C q = flip_token_bit i j b" by (rule canon [OF Some])
      then have "keyed_signature C key (encode_claims C q) \<noteq> sg"
        using sens [OF True j] by simp
      then show ?thesis using v Some by simp
    qed
  next
    case False
    have k: "i - length b < length sg" using False i' by simp
    have ne: "flip_token_bit (i - length b) j sg \<noteq> sg" by (rule flip_token_bit_neq [OF k j])
    have "compact_verify C (flip_token_bit i j (b @ sg)) key =
      (case decode_claims C b of
        None \<Rightarrow> Inl Malformed
      | Some q \<Rightarrow>
          if keyed_signature C key (encode_claims C q) \<noteq> flip_token_bit (i - length b) j sg
          then Inl BadSignature else Inr q)"
      using False len by (simp add: flip_token_bit_append compact_verify_parts)
    then show ?thesis using rt ne by (simp add: sg_def b_def)
  qed
  then show ?thesis by (simp add: b_def sg_def)
qed

text \<open>The instance of the codec meets the contract for the claims of \<open>demo_payload\<close>.\<close>

lemma all_less_list_all:
  "(\<forall>i j. i < n \<and> j < m \<longrightarrow> P i j) \<longleftrightarrow> list_all (\<lambda>i. list_all (P i) [0..<m]) [0..<n]"
  by (auto simp: list_all_iff)

lemma demo_codec_contract:
  "codec_contract demo_codec (JWT_SECRET codec_deps)
     (setExpirationTime (hours 24) 5000 (setIssuedAt 5000 demo_payload))"
proof -
  define p where "p = setExpirationTime (hours 24) 5000 (setIssuedAt 5000 demo_payload)"
  have 1: "decode_claims demo_codec (encode_claims demo_codec p) = Some p"
    unfolding p_def by code_simp
  have 2: "\<forall>b q. decode_claims demo_codec b = Some q \<longrightarrow> encode_claims demo_codec q = b"
    by (auto simp: demo_codec_def strict_decode_def split: option.splits if_splits)
  have 3: "length (keyed_signature demo_codec (JWT_SECRET codec_deps) (encode_claims demo_codec p))
           = signature_length demo_codec"
    unfolding p_def by code_simp
  have "list_all (\<lambda>i. list_all (\<lambda>j.
            keyed_signature demo_codec (JWT_SECRET codec_deps)
                (flip_token_bit i j (encode_claims demo_codec p))
              \<noteq> keyed_signature demo_codec (JWT_SECRET codec_deps) (encode_claims demo_codec p))
          [0..<8]) [0..<length (encode_claims demo_codec p)]"
    unfolding p_def by code_simp
  then have 4: "\<forall>i j. i < length (encode_claims demo_codec p) \<and> j < 8 \<longrightarrow>
            keyed_signature demo_codec (JWT_SECRET codec_deps)
                (flip_token_bit i j (encode_claims demo_codec p))
              \<noteq> keyed_signature demo_codec (JWT_SECRET codec_deps) (encode_claims demo_codec p)"
    by (simp only: all_less_list_all)
  from 1 2 3 4 show ?thesis
    unfolding codec_contract_def p_def by (intro conjI)
qed

text \<open>
  Claim C3, as amended. \<open>verifyToken\<close> catches every error of the verification and returns
  \<open>null\<close>: a token that the verification rejects, of whatever kind, gives \<open>null\<close> from
  \<open>verifyToken\<close> and from \<open>getUserByToken\<close>, and a token is accepted only when the
  verification succeeds, the user returned being the one stored under the id of the
  verified payload. With the codec of the spec, the verification tells its failure kinds
  apart and checks them in this order: a token that is too short for a signature or
  whose payload part does not decode fails as \<open>Malformed\<close>, whatever its signature and
  the clock; a token that decodes and whose recomputed signature differs from the one
  it carries fails as \<open>BadSignature\<close>, whatever the clock; a token with a valid signature
  and \<open>now > expiresAt\<close> fails as \<open>Expired\<close>, and one with a valid signature that has not
  expired is accepted. When the codec meets its contract for the signed claims,
  flipping any single bit of a token issued by \<open>signToken\<close> makes the verification fail
  as \<open>Malformed\<close> or as \<open>BadSignature\<close>, at every clock reading, so \<open>verifyToken\<close> and
  \<open>getUserByToken\<close> return \<open>null\<close>: no different claim is accepted.
\<close>

theorem verification_order_and_bit_flips:
  "(jwtVerify D t (JWT_SECRET D) now = Inl e \<longrightarrow>
      verifyToken D now t = None \<and> getUserByToken D now s t = None)
   \<and> (jwtVerify D t (JWT_SECRET D) now = Inr p \<longrightarrow>
      verifyToken D now t = Some p
      \<and> getUserByToken D now s t = getUserById s (tp_userId p))
   \<and> (uses_codec D C \<longrightarrow>
        (length t < signature_length C \<or> decode_claims C (token_body C t) = None \<longrightarrow>
           jwtVerify D t key now = Inl Malformed)
        \<and> (signature_length C \<le> length t \<and> decode_claims C (token_body C t) = Some p
            \<and> keyed_signature C key (encode_claims C p) \<noteq> token_signature C t \<longrightarrow>
           jwtVerify D t key now = Inl BadSignature)
        \<and> (signature_length C \<le> length t \<and> decode_claims C (token_body C t) = Some p
            \<and> keyed_signature C key (encode_claims C p) = token_signature C t
            \<and> tp_exp p = Some x \<and> epoch now > x \<longrightarrow>
           jwtVerify D t key now = Inl Expired)
        \<and> (signature_length C \<le> length t \<and> decode_claims C (token_body C t) = Some p
            \<and> keyed_signature C key (encode_claims C p) = token_signature C t
            \<and> tp_exp p = Some x \<and> \<not> epoch now > x \<longrightarrow>
           jwtVerify D t key now = Inr p)
        \<and> (signToken D T payload = Some tok
            \<and> codec_contract C (JWT_SECRET D)
                 (setExpirationTime (hours 24) T (setIssuedAt T payload))
            \<and> i < length tok \<and> j < 8 \<longrightarrow>
           (jwtVerify D (flip_token_bit i j tok) (JWT_SECRET D) now = Inl Malformed
            \<or> jwtVerify D (flip_token_bit i j tok) (JWT_SECRET D) now = Inl BadSignature)
           \<and> verifyToken D now (flip_token_bit i j tok) = None
           \<and> getUserByToken D now s (flip_token_bit i j tok) = None))"
proof (intro conjI impI)
  show "verifyToken D now t = None" if "jwtVerify D t (JWT_SECRET D) now = Inl e"
    using that by (simp add: verifyToken_def)
  show "getUserByToken D now s t = None" if "jwtVerify D t (JWT_SECRET D) now = Inl e"
    using that by (simp add: getUserByToken_def verifyToken_def)
  show "verifyToken D now t = Some p" if "jwtVerify D t (JWT_SECRET D) now = Inr p"
    using that by (simp add: verifyToken_def)
  show "getUserByToken D now s t = getUserById s (tp_userId p)"
    if "jwtVerify D t (JWT_SECRET D) now = Inr p"
    using that by (simp add: getUserByToken_def verifyToken_def)
next
  assume u: "uses_codec D C"
  then have v: "jws_verify D = compact_verify C" by (simp add: uses_codec_def)
  show "jwtVerify D t key now = Inl Malformed"
    if "length t < signature_length C \<or> decode_claims C (token_body C t) = None"
    using that by (auto simp: jwtVerify_def v compact_verify_def)
  show "jwtVerify D t key now = Inl BadSignature"
    if "signature_length C \<le> length t \<and> decode_claims C (token_body C t) = Some p
            \<and> keyed_signature C key (encode_claims C p) \<noteq> token_signature C t"
    using that by (simp add: jwtVerify_def v compact_verify_def)
  show "jwtVerify D t key now = Inl Expired"
    if "signature_length C \<le> length t \<and> decode_claims C (token_body C t) = Some p
            \<and> keyed_signature C key (encode_claims C p) = token_signature C t
            \<and> tp_exp p = Some x \<and> epoch now > x"
    using that by (simp add: jwtVerify_def v compact_verify_def)
  show "jwtVerify D t key now = Inr p"
    if "signature_length C \<le> length t \<and> decode_claims C (token_body C t) = Some p
            \<and> keyed_signature C key (encode_claims C p) = token_signature C t
            \<and> tp_exp p = Some x \<and> \<not> epoch now > x"
    using that by (simp add: jwtVerify_def v compact_verify_def)
next
  assume u: "uses_codec D C"
    and a: "signToken D T payload = Some tok
            \<and> codec_contract C (JWT_SECRET D)
                 (setExpirationTime (hours 24) T (setIssuedAt T payload))
            \<and> i < length tok \<and> j < 8"
  define q where "q = setExpirationTime (hours 24) T (setIssuedAt T payload)"
  have v: "jws_verify D = compact_verify C" and sg: "jws_sign D = compact_sign C"
    using u by (simp_all add: uses_codec_def)
  have tok: "tok = encode_claims C q @ keyed_signature C (JWT_SECRET D) (encode_claims C q)"
    using a by (simp add: signToken_def sg compact_sign_def q_def Let_def)
  have c: "codec_contract C (JWT_SECRET D) q" using a by (simp add: q_def)
  have i: "i < length (encode_claims C q @ keyed_signature C (JWT_SECRET D) (encode_claims C q))"
    using a tok by simp
  have j: "j < 8" using a by simp
  have r: "compact_verify C (flip_token_bit i j tok) (JWT_SECRET D) = Inl Malformed
       \<or> compact_verify C (flip_token_bit i j tok) (JWT_SECRET D) = Inl BadSignature"
    unfolding tok by (rule compact_verify_flipped [OF c i j])
  then show w: "jwtVerify D (flip_token_bit i j tok) (JWT_SECRET D) now = Inl Malformed
            \<or> jwtVerify D (flip_token_bit i j tok) (JWT_SECRET D) now = Inl BadSignature"
    by (auto simp: jwtVerify_def v)
  then show "verifyToken D now (flip_token_bit i j tok) = None"
    by (auto simp: verifyToken_def)
  from w show "getUserByToken D now s (flip_token_bit i j tok) = None"
    by (auto simp: verifyToken_def getUserByToken_def)
qed

theorem verification_order_and_bit_flips_witness:
  "uses_codec codec_deps demo_codec
   \<and> signToken codec_deps 5000 demo_payload = Some codec_token
   \<and> decode_claims demo_codec (token_body demo_codec (flip_token_bit 1 0 codec_token)) = None
   \<and> jwtVerify codec_deps (flip_token_bit 1 0 codec_token) (JWT_SECRET codec_deps) 86406000
       = Inl Malformed
   \<and> keyed_signature demo_codec (JWT_SECRET codec_deps)
        (encode_claims demo_codec
           \<lparr>tp_userId = ''3'', tp_email = Some ''user@demo.com'', tp_role = Some RoleUser,
            tp_iat = Some 5, tp_exp = Some 86405\<rparr>)
       \<noteq> token_signature demo_codec (flip_token_bit 0 0 codec_token)
   \<and> jwtVerify codec_deps (flip_token_bit 0 0 codec_token) (JWT_SECRET codec_deps) 86406000
       = Inl BadSignature
   \<and> jwtVerify codec_deps codec_token (JWT_SECRET codec_deps) 86406000 = Inl Expired
   \<and> jwtVerify codec_deps codec_token (JWT_SECRET codec_deps) 6000
       = Inr \<lparr>tp_userId = ''2'', tp_email = Some ''user@demo.com'', tp_role = Some RoleUser,
              tp_iat = Some 5, tp_exp = Some 86405\<rparr>
   \<and> getUserByToken codec_deps 6000 demo_state codec_token = getUserById demo_state ''2''
   \<and> getUserByToken codec_deps 86406000 demo_state codec_token = None
   \<and> (jwtVerify codec_deps (flip_token_bit 20 3 codec_token) (JWT_SECRET codec_deps) 6000
         = Inl Malformed
       \<or> jwtVerify codec_deps (flip_token_bit 20 3 codec_token) (JWT_SECRET codec_deps) 6000
         = Inl BadSignature)
   \<and> verifyToken codec_deps 6000 (flip_token_bit 20 3 codec_token) = None
   \<and> getUserByToken codec_deps 6000 demo_state (flip_token_bit 20 3 codec_token) = None
   \<and> getUserByToken codec_deps 6000 demo_state (flip_token_bit 33 7 codec_token) = None"
proof -
  let ?p2 = "\<lparr>tp_userId = ''2'', tp_email = Some ''user@demo.com'', tp_role = Some RoleUser,
              tp_iat = Some 5, tp_exp = Some (86405 :: int)\<rparr>"
  let ?p3 = "\<lparr>tp_userId = ''3'', tp_email = Some ''user@demo.com'', tp_role = Some RoleUser,
              tp_iat = Some 5, tp_exp = Some (86405 :: int)\<rparr>"
  have u: "uses_codec codec_deps demo_codec"
    by (simp add: uses_codec_def codec_deps_def)
  have sg: "signToken codec_deps 5000 demo_payload = Some codec_token"
    by code_simp
  have len: "(20 :: nat) < length codec_token" "(33 :: nat) < length codec_token"
    by code_simp+
  have m: "decode_claims demo_codec (token_body demo_codec (flip_token_bit 1 0 codec_token)) = None"
    by code_simp
  have b: "signature_length demo_codec \<le> length (flip_token_bit 0 0 codec_token)
      \<and> decode_claims demo_codec (token_body demo_codec (flip_token_bit 0 0 codec_token)) = Some ?p3
      \<and> keyed_signature demo_codec (JWT_SECRET codec_deps) (encode_claims demo_codec ?p3)
           \<noteq> token_signature demo_codec (flip_token_bit 0 0 codec_token)"
    by code_simp
  have x: "signature_length demo_codec \<le> length codec_token
      \<and> decode_claims demo_codec (token_body demo_codec codec_token) = Some ?p2
      \<and> keyed_signature demo_codec (JWT_SECRET codec_deps) (encode_claims demo_codec ?p2)
           = token_signature demo_codec codec_token
      \<and> tp_exp ?p2 = Some 86405 \<and> epoch 86406000 > 86405"
    by code_simp
  have ok: "signature_length demo_codec \<le> length codec_token
      \<and> decode_claims demo_codec (token_body demo_codec codec_token) = Some ?p2
      \<and> keyed_signature demo_codec (JWT_SECRET codec_deps) (encode_claims demo_codec ?p2)
           = token_signature demo_codec codec_token
      \<and> tp_exp ?p2 = Some 86405 \<and> \<not> epoch 6000 > 86405"
    by code_simp
  note t = verification_order_and_bit_flips
  note tc = t [THEN conjunct2, THEN conjunct2, THEN mp, OF u]
  have c1: "jwtVerify codec_deps (flip_token_bit 1 0 codec_token) (JWT_SECRET codec_deps) 86406000
       = Inl Malformed"
    by (rule tc [THEN conjunct1, THEN mp, OF disjI2, OF m])
  have c2: "jwtVerify codec_deps (flip_token_bit 0 0 codec_token) (JWT_SECRET codec_deps) 86406000
       = Inl BadSignature"
    by (rule tc [THEN conjunct2, THEN conjunct1, THEN mp, OF b])
  have c3: "jwtVerify codec_deps codec_token (JWT_SECRET codec_deps) 86406000 = Inl Expired"
    by (rule tc [THEN conjunct2, THEN conjunct2, THEN conjunct1, THEN mp, OF x])
  have c4: "jwtVerify codec_deps codec_token (JWT_SECRET codec_deps) 6000 = Inr ?p2"
    by (rule tc [THEN conjunct2, THEN conjunct2, THEN conjunct2, THEN conjunct1, THEN mp, OF ok])
  have c5: "getUserByToken codec_deps 6000 demo_state codec_token = getUserById demo_state ''2''"
    using t [THEN conjunct2, THEN conjunct1, THEN mp, OF c4] by simp
  have c6: "getUserByToken codec_deps 86406000 demo_state codec_token = None"
    using t [THEN conjunct1, THEN mp, OF c3] by simp
  have hyp: "signToken codec_deps 5000 demo_payload = Some codec_token
      \<and> codec_contract demo_codec (JWT_SECRET codec_deps)
           (setExpirationTime (hours 24) 5000 (setIssuedAt 5000 demo_payload))
      \<and> i < length codec_token \<and> j < 8" if "i < length codec_token" "j < 8" for i j :: nat
    using that sg demo_codec_contract by (intro conjI)
  note fl = t [where D = codec_deps and C = demo_codec and T = 5000 and payload = demo_payload
      and tok = codec_token and now = 6000 and s = demo_state,
      THEN conjunct2, THEN conjunct2, THEN mp, OF u,
      THEN conjunct2, THEN conjunct2, THEN conjunct2, THEN conjunct2, THEN mp, OF hyp]
  have c7: "(jwtVerify codec_deps (flip_token_bit 20 3 codec_token) (JWT_SECRET codec_deps) 6000
         = Inl Malformed
       \<or> jwtVerify codec_deps (flip_token_bit 20 3 codec_token) (JWT_SECRET codec_deps) 6000
         = Inl BadSignature)
     \<and> verifyToken codec_deps 6000 (flip_token_bit 20 3 codec_token) = None
     \<and> getUserByToken codec_deps 6000 demo_state (flip_token_bit 20 3 codec_token) = None"
    by (rule fl) (simp_all add: len)
  have c8: "(jwtVerify codec_deps (flip_token_bit 33 7 codec_token) (JWT_SECRET codec_deps) 6000
         = Inl Malformed
       \<or> jwtVerify codec_deps (flip_token_bit 33 7 codec_token) (JWT_SECRET codec_deps) 6000
         = Inl BadSignature)
     \<and> verifyToken codec_deps 6000 (flip_token_bit 33 7 codec_token) = None
     \<and> getUserByToken codec_deps 6000 demo_state (flip_token_bit 33 7 codec_token) = None"
    by (rule fl) (simp_all add: len)
  from u sg m c1 b c2 c3 c4 c5 c6 c7 c8 show ?thesis by (intro conjI) simp_all
qed

text \<open>
  The claim as stated fails: what reaches the caller is \<open>null\<close> for every kind, and a
  flipped bit is not always reported as \<open>BadSignature\<close>. For the token issued for account 2,
  flipping the lowest bit of its first separator gives a token that fails as
  \<open>Malformed\<close>, flipping the lowest bit of the user id gives one that fails as
  \<open>BadSignature\<close>, the token itself fails as \<open>Expired\<close> a day later, and all three come
  back as the same \<open>null\<close>.
\<close>

theorem verification_kinds_counterexample:
  "uses_codec codec_deps demo_codec
   \<and> signToken codec_deps 5000 demo_payload = Some codec_token
   \<and> jwtVerify codec_deps (flip_token_bit 1 0 codec_token) (JWT_SECRET codec_deps) 6000
       = Inl Malformed
   \<and> jwtVerify codec_deps (flip_token_bit 0 0 codec_token) (JWT_SECRET codec_deps) 6000
       = Inl BadSignature
   \<and> jwtVerify codec_deps codec_token (JWT_SECRET codec_deps) 86406000 = Inl Expired
   \<and> verifyToken codec_deps 6000 (flip_token_bit 1 0 codec_token) = None
   \<and> verifyToken codec_deps 6000 (flip_token_bit 0 0 codec_token) = None
   \<and> verifyToken codec_deps 86406000 codec_token = None
   \<and> getUserByToken codec_deps 6000 demo_state (flip_token_bit 1 0 codec_token) = None
   \<and> getUserByToken codec_deps 6000 demo_state (flip_token_bit 0 0 codec_token) = None
   \<and> getUserByToken codec_deps 86406000 demo_state codec_token = None"
proof -
  have "uses_codec codec_deps demo_codec"
    by (simp add: uses_codec_def codec_deps_def)
  moreover have "signToken codec_deps 5000 demo_payload = Some codec_token
   \<and> jwtVerify codec_deps (flip_token_bit 1 0 codec_token) (JWT_SECRET codec_deps) 6000
       = Inl Malformed
   \<and> jwtVerify codec_deps (flip_token_bit 0 0 codec_token) (JWT_SECRET codec_deps) 6000
       = Inl BadSignature
   \<and> jwtVerify codec_deps codec_token (JWT_SECRET codec_deps) 86406000 = Inl Expired
   \<and> verifyToken codec_deps 6000 (flip_token_bit 1 0 codec_token) = None
   \<and> verifyToken codec_deps 6000 (flip_token_bit 0 0 codec_token) = None
   \<and> verifyToken codec_deps 86406000 codec_token = None
   \<and> getUserByToken codec_deps 6000 demo_state (flip_token_bit 1 0 codec_token) = None
   \<and> getUserByToken codec_deps 6000 demo_state (flip_token_bit 0 0 codec_token) = None
   \<and> getUserByToken codec_deps 86406000 demo_state codec_token = None"
    by code_simp
  ultimately show ?thesis by (rule conjI)
qed

subsection \<open>The validity window of a token\<close>

lemma epoch_plus_second: "epoch (T + 1000) = epoch T + 1"
  by (simp add: epoch_def)

lemma epoch_plus_day_second: "epoch (T + 24 * 60 * 60 * 1000 + 1000) = epoch T + 86401"
proof -
  have a: "T + 24 * 60 * 60 * 1000 + 1000 = T + 86401 * 1000" by simp
  have "(T + 86401 * 1000) div 1000 = 86401 + T div 1000"
    by (rule div_mult_self1) simp
  then show ?thesis unfolding epoch_def a by simp
qed

lemma getUserByToken_Inl:
  "jwtVerify D token (JWT_SECRET D) now = Inl e \<Longrightarrow> getUserByToken D now s token = None"
  by (simp add: getUserByToken_def verifyToken_def)

lemma getUserByToken_Inr:
  "jwtVerify D token (JWT_SECRET D) now = Inr p
   \<Longrightarrow> getUserByToken D now s token = getUserById s (tp_userId p)"
  by (simp add: getUserByToken_def verifyToken_def)

lemma jwtVerify_in_window:
  "jws_verify D token key = Inr c \<Longrightarrow> tp_exp c = Some (epoch T + 24 * 60 * 60)
   \<Longrightarrow> jwtVerify D token key (T + 1000) = Inr c"
  by (simp add: jwtVerify_def epoch_plus_second)

lemma jwtVerify_after_window:
  "jws_verify D token key = Inr c \<Longrightarrow> tp_exp c = Some (epoch T + 24 * 60 * 60)
   \<Longrightarrow> jwtVerify D token key (T + 24 * 60 * 60 * 1000 + 1000) = Inl Expired"
  unfolding jwtVerify_def epoch_plus_day_second by simp

lemma signed_claims:
  "setExpirationTime (hours 24) T (setIssuedAt T payload) =
     payload\<lparr>tp_iat := Some (epoch T), tp_exp := Some (epoch T + 86400)\<rparr>"
  by (simp add: setExpirationTime_def setIssuedAt_def hours_def)

lemma signToken_roundtrip:
  assumes "signToken D T payload = Some token"
    and "jws_roundtrip D (setExpirationTime (hours 24) T (setIssuedAt T payload)) (JWT_SECRET D)"
  shows "jws_verify D token (JWT_SECRET D)
           = Inr (payload\<lparr>tp_iat := Some (epoch T), tp_exp := Some (epoch T + 24 * 60 * 60)\<rparr>)"
  using assms by (simp add: signToken_def jws_roundtrip_def signed_claims)

text \<open>
  Claim C4. A token signed at the clock reading \<open>T\<close> carries the issue time and an expiry
  exactly 24 hours after it. Given the contract of the library for the signed claim set
  (the verification accepts the token that the signer issued and yields its claims),
  at \<open>T\<close> + 1 second the token is accepted and \<open>getUserByToken\<close> returns the user stored
  under the id in the payload, and at \<open>T\<close> + 24 hours + 1 second the verification fails as
  expired and \<open>getUserByToken\<close> returns \<open>null\<close>. For the token of a login on a registry
  that stores every record under its own id, the user returned at \<open>T\<close> + 1 second is the
  user of the login.
\<close>

theorem token_valid_for_24_hours:
  "(signToken D T payload = Some token
    \<and> jws_roundtrip D (setExpirationTime (hours 24) T (setIssuedAt T payload)) (JWT_SECRET D)
    \<and> jsmap_get (users s) (tp_userId payload) = Some su
    \<longrightarrow> jwtVerify D token (JWT_SECRET D) (T + 1000)
          = Inr (payload\<lparr>tp_iat := Some (epoch T), tp_exp := Some (epoch T + 24 * 60 * 60)\<rparr>)
        \<and> getUserByToken D (T + 1000) s token = Some (userWithoutPassword su)
        \<and> jwtVerify D token (JWT_SECRET D) (T + 24 * 60 * 60 * 1000 + 1000) = Inl Expired
        \<and> getUserByToken D (T + 24 * 60 * 60 * 1000 + 1000) s token = None)
   \<and> (authenticateUser D E s email pw = (s', r)
      \<and> res_token r = Some token \<and> res_user r = Some u \<and> registry_wf (users s)
      \<and> jws_roundtrip D
            (setExpirationTime (hours 24) (clock_sign E) (setIssuedAt (clock_sign E)
               \<lparr>tp_userId = u_id u, tp_email = u_email u, tp_role = u_role u,
                tp_iat = None, tp_exp = None\<rparr>))
            (JWT_SECRET D)
      \<longrightarrow> getUserByToken D (clock_sign E + 1000) s' token = Some u
        \<and> getUserByToken D (clock_sign E + 24 * 60 * 60 * 1000 + 1000) s' token = None)"
proof (intro conjI impI)
  assume a: "signToken D T payload = Some token
    \<and> jws_roundtrip D (setExpirationTime (hours 24) T (setIssuedAt T payload)) (JWT_SECRET D)
    \<and> jsmap_get (users s) (tp_userId payload) = Some su"
  let ?c = "payload\<lparr>tp_iat := Some (epoch T), tp_exp := Some (epoch T + 24 * 60 * 60)\<rparr>"
  from a have v: "jws_verify D token (JWT_SECRET D) = Inr ?c"
    using signToken_roundtrip [of D T payload token] by simp
  have x: "tp_exp ?c = Some (epoch T + 24 * 60 * 60)" by simp
  show ok: "jwtVerify D token (JWT_SECRET D) (T + 1000) = Inr ?c"
    using v x by (rule jwtVerify_in_window)
  show ex: "jwtVerify D token (JWT_SECRET D) (T + 24 * 60 * 60 * 1000 + 1000) = Inl Expired"
    using v x by (rule jwtVerify_after_window)
  show "getUserByToken D (T + 1000) s token = Some (userWithoutPassword su)"
    using a by (simp add: getUserByToken_Inr [OF ok] getUserById_def)
  show "getUserByToken D (T + 24 * 60 * 60 * 1000 + 1000) s token = None"
    using ex by (rule getUserByToken_Inl)
next
  let ?p = "\<lparr>tp_userId = u_id u, tp_email = u_email u, tp_role = u_role u,
                tp_iat = None, tp_exp = None\<rparr>"
  assume a: "authenticateUser D E s email pw = (s', r)
      \<and> res_token r = Some token \<and> res_user r = Some u \<and> registry_wf (users s)
      \<and> jws_roundtrip D
            (setExpirationTime (hours 24) (clock_sign E) (setIssuedAt (clock_sign E) ?p))
            (JWT_SECRET D)"
  let ?c = "?p\<lparr>tp_iat := Some (epoch (clock_sign E)),
               tp_exp := Some (epoch (clock_sign E) + 24 * 60 * 60)\<rparr>"
  from a have a1: "authenticateUser D E s email pw = (s', r)" by simp
  from a have a2: "success r"
    using authenticate_failure_state(2) [OF a1] by auto
  from authenticate_success_state [OF a1 a2] obtain su
    where su: "findByEmail (users s) email = Some su"
      and ru: "res_user r = Some (userWithoutPassword su)"
      and tk: "signToken D (clock_sign E)
                  \<lparr>tp_userId = u_id su, tp_email = u_email su, tp_role = u_role su,
                   tp_iat = None, tp_exp = None\<rparr> = res_token r"
      and s': "s' = s\<lparr>sessions := jsmap_set (new_session_id E)
                       \<lparr>userId = u_id su, expiresAt = clock_expiry E + 86400000\<rparr> (sessions s)\<rparr>"
    by blast
  from a ru have u: "u = userWithoutPassword su" by simp
  then have f: "u_id u = u_id su" "u_email u = u_email su" "u_role u = u_role su"
    by (simp_all add: userWithoutPassword_fields)
  from a su have g: "jsmap_get (users s') (u_id u) = Some su"
    using registry_wf_find_get [of "users s" email su] s' f(1) by simp
  from tk a f have sg: "signToken D (clock_sign E) ?p = Some token" by simp
  from a have rt: "jws_roundtrip D
            (setExpirationTime (hours 24) (clock_sign E) (setIssuedAt (clock_sign E) ?p))
            (JWT_SECRET D)"
    by simp
  have v: "jws_verify D token (JWT_SECRET D) = Inr ?c"
    using sg rt by (rule signToken_roundtrip)
  have x: "tp_exp ?c = Some (epoch (clock_sign E) + 24 * 60 * 60)" by simp
  have ok: "jwtVerify D token (JWT_SECRET D) (clock_sign E + 1000) = Inr ?c"
    using v x by (rule jwtVerify_in_window)
  have ex: "jwtVerify D token (JWT_SECRET D) (clock_sign E + 24 * 60 * 60 * 1000 + 1000) = Inl Expired"
    using v x by (rule jwtVerify_after_window)
  show "getUserByToken D (clock_sign E + 1000) s' token = Some u"
    using g u by (simp add: getUserByToken_Inr [OF ok] getUserById_def)
  show "getUserByToken D (clock_sign E + 24 * 60 * 60 * 1000 + 1000) s' token = None"
    using ex by (rule getUserByToken_Inl)
qed

theorem token_valid_for_24_hours_witness:
  "signToken demo_deps 5000 demo_payload = Some demo_token
   \<and> jws_roundtrip demo_deps (setExpirationTime (hours 24) 5000 (setIssuedAt 5000 demo_payload))
        (JWT_SECRET demo_deps)
   \<and> getUserById demo_state ''2'' = Some demo_account2
   \<and> getUserByToken demo_deps (5000 + 1000) demo_state demo_token = Some demo_account2
   \<and> jwtVerify demo_deps demo_token (JWT_SECRET demo_deps) (5000 + 24 * 60 * 60 * 1000 + 1000)
       = Inl Expired
   \<and> getUserByToken demo_deps (5000 + 24 * 60 * 60 * 1000 + 1000) demo_state demo_token = None
   \<and> res_token (snd (authenticateUser demo_deps demo_effects demo_state
         ''user@demo.com'' ''user123!'')) = Some demo_token
   \<and> res_user (snd (authenticateUser demo_deps demo_effects demo_state
         ''user@demo.com'' ''user123!'')) = Some demo_account2
   \<and> registry_wf (users demo_state)
   \<and> getUserByToken demo_deps (clock_sign demo_effects + 1000)
         (fst (authenticateUser demo_deps demo_effects demo_state ''user@demo.com'' ''user123!''))
         demo_token
       = Some demo_account2
   \<and> getUserByToken demo_deps (clock_sign demo_effects + 24 * 60 * 60 * 1000 + 1000)
         (fst (authenticateUser demo_deps demo_effects demo_state ''user@demo.com'' ''user123!''))
         demo_token
       = None"
proof -
  let ?a = "authenticateUser demo_deps demo_effects demo_state ''user@demo.com'' ''user123!''"
  have h1: "signToken demo_deps 5000 demo_payload = Some demo_token" by code_simp
  have h2: "jws_roundtrip demo_deps
              (setExpirationTime (hours 24) 5000 (setIssuedAt 5000 demo_payload))
              (JWT_SECRET demo_deps)"
    by code_simp
  have "jsmap_get (users demo_state) (tp_userId demo_payload) \<noteq> None" by code_simp
  then obtain su where h3: "jsmap_get (users demo_state) (tp_userId demo_payload) = Some su"
    by blast
  have g: "getUserById demo_state ''2'' = Some demo_account2" by code_simp
  have id2: "tp_userId demo_payload = ''2''" by (simp add: demo_payload_def)
  from g h3 have su: "userWithoutPassword su = demo_account2"
    by (simp add: getUserById_def id2)
  note p1 = token_valid_for_24_hours [THEN conjunct1, THEN mp, OF conjI, OF h1 conjI, OF h2 h3]
  have h5: "res_token (snd ?a) = Some demo_token" by code_simp
  have h6: "registry_wf (users demo_state)" by code_simp
  have h7: "res_user (snd ?a) = Some demo_account2" by code_simp
  have h8: "jws_roundtrip demo_deps
            (setExpirationTime (hours 24) (clock_sign demo_effects)
               (setIssuedAt (clock_sign demo_effects)
                 \<lparr>tp_userId = u_id demo_account2, tp_email = u_email demo_account2,
                  tp_role = u_role demo_account2, tp_iat = None, tp_exp = None\<rparr>))
            (JWT_SECRET demo_deps)"
    by code_simp
  have pr: "?a = (fst ?a, snd ?a)" by simp
  note p2 = token_valid_for_24_hours [THEN conjunct2, THEN mp, OF conjI, OF pr conjI,
      OF h5 conjI, OF h7 conjI, OF h6 h8]
  from h1 h2 g p1 h5 h6 h7 p2 su show ?thesis by simp
qed

subsection \<open>The user records handed out\<close>

lemma register_returns_projection:
  assumes "registerUser D E s email pw name = (s', r)" "res_user r = Some u"
  shows "u = userWithoutPassword (new_user D E email pw name)"
    and "\<exists>x \<in> snd ` set (users s'). u = userWithoutPassword x"
proof -
  from assms have su: "success r"
    by (auto simp: registerUser_cases failure_def split: if_splits option.splits)
  note st = register_success_state(2) [OF assms(1) su]
    and ru = register_success_state(4) [OF assms(1) su]
  from ru assms(2) show u: "u = userWithoutPassword (new_user D E email pw name)" by simp
  have "new_user D E email pw name \<in> snd ` set (users s')"
    unfolding st using jsmap_set_mem [of "new_user_id E" "new_user D E email pw name" "users s"]
    by (metis image_eqI snd_conv)
  with u show "\<exists>x \<in> snd ` set (users s'). u = userWithoutPassword x" by blast
qed

lemma login_returns_projection:
  assumes "authenticateUser D E s email pw = (s', r)" "res_user r = Some u"
  shows "\<exists>x \<in> snd ` set (users s'). u = userWithoutPassword x"
proof -
  from assms have su: "success r"
    using authenticate_failure_state(2) [OF assms(1)] by auto
  from authenticate_success_state [OF assms(1) su] obtain x
    where x: "findByEmail (users s) email = Some x"
      and ru: "res_user r = Some (userWithoutPassword x)"
      and s': "s' = s\<lparr>sessions := jsmap_set (new_session_id E)
                       \<lparr>userId = u_id x, expiresAt = clock_expiry E + 86400000\<rparr> (sessions s)\<rparr>"
    by blast
  from x have "x \<in> snd ` set (users s')" using findByEmail_SomeD s' by simp
  with ru assms(2) show ?thesis by auto
qed

lemma getUserById_projection:
  assumes "getUserById s uid = Some u"
  shows "\<exists>x \<in> snd ` set (users s). u = userWithoutPassword x"
proof -
  from assms obtain x where x: "jsmap_get (users s) uid = Some x" "u = userWithoutPassword x"
    by (auto simp: getUserById_def split: option.splits)
  from x(1) have "x \<in> snd ` set (users s)"
    by (metis jsmap_get_SomeD image_eqI snd_conv)
  with x(2) show ?thesis by blast
qed

lemma getUserByToken_projection:
  assumes "getUserByToken D now s token = Some u"
  shows "\<exists>x \<in> snd ` set (users s). u = userWithoutPassword x"
  using assms getUserById_projection
  by (auto simp: getUserByToken_def split: option.splits)

lemma update_returns_projection:
  assumes "updateUser now s uid updates = (s', ur)" "upd_user ur = Some u"
  shows "\<exists>x \<in> snd ` set (users s'). u = userWithoutPassword x"
proof -
  from assms obtain x where x: "jsmap_get (users s) uid = Some x"
    by (auto simp: updateUser_cases split: option.splits)
  let ?v = "merge_updates x updates uid now"
  from assms x have s': "users s' = jsmap_set uid ?v (users s)" and u: "u = userWithoutPassword ?v"
    by (auto simp: updateUser_cases)
  have "?v \<in> snd ` set (users s')"
    unfolding s' using jsmap_set_mem [of uid ?v "users s"] by (metis image_eqI snd_conv)
  with u show ?thesis by blast
qed

text \<open>
  Claim C7. Every user record that \<open>registerUser\<close>, \<open>authenticateUser\<close>, \<open>getUserById\<close>,
  \<open>getUserByToken\<close> or \<open>updateUser\<close> returns is a value of the type \<open>user\<close>, whose fields
  are \<open>id\<close>, \<open>email\<close>, \<open>name\<close>, \<open>role\<close>, \<open>createdAt\<close>, \<open>updatedAt\<close> and the optional
  \<open>profile\<close>; it is the projection \<open>userWithoutPassword\<close> of a stored record, which copies
  these seven fields and does not depend on the \<open>password\<close> field. The record that
  \<open>registerUser\<close> returns is built from the email, the name and the environment alone.
\<close>

theorem returned_users_carry_no_password:
  "userWithoutPassword su =
     \<lparr>u_id = u_id su, u_email = u_email su, u_name = u_name su, u_role = u_role su,
      createdAt = createdAt su, updatedAt = updatedAt su, profile = profile su\<rparr>
   \<and> userWithoutPassword (su\<lparr>password := h\<rparr>) = userWithoutPassword su
   \<and> (registerUser D E s email pw name = (s', r) \<and> res_user r = Some u \<longrightarrow>
        u = \<lparr>u_id = new_user_id E, u_email = Some email, u_name = Some name,
             u_role = Some RoleUser,
             createdAt = Some (clock_created E), updatedAt = clock_updated E,
             profile = Some \<lparr>company = None, phone = None, address = None, timezone = None,
               notificationPreferences = Some \<lparr>np_email = True, sms = False, billing = True,
                 maintenance = False, security = True\<rparr>\<rparr>\<rparr>
        \<and> (\<exists>x \<in> snd ` set (users s'). u = userWithoutPassword x))
   \<and> (authenticateUser D E s email pw = (s', r) \<and> res_user r = Some u \<longrightarrow>
        (\<exists>x \<in> snd ` set (users s'). u = userWithoutPassword x))
   \<and> (getUserById s uid = Some u \<longrightarrow> (\<exists>x \<in> snd ` set (users s). u = userWithoutPassword x))
   \<and> (getUserByToken D now s token = Some u \<longrightarrow>
        (\<exists>x \<in> snd ` set (users s). u = userWithoutPassword x))
   \<and> (updateUser now s uid updates = (s', ur) \<and> upd_user ur = Some u \<longrightarrow>
        (\<exists>x \<in> snd ` set (users s'). u = userWithoutPassword x))"
proof (intro conjI impI)
  show "userWithoutPassword su =
     \<lparr>u_id = u_id su, u_email = u_email su, u_name = u_name su, u_role = u_role su,
      createdAt = createdAt su, updatedAt = updatedAt su, profile = profile su\<rparr>"
    by (rule userWithoutPassword_fields)
  show "userWithoutPassword (su\<lparr>password := h\<rparr>) = userWithoutPassword su"
    by (simp add: userWithoutPassword_fields)
next
  assume a: "registerUser D E s email pw name = (s', r) \<and> res_user r = Some u"
  then have a1: "registerUser D E s email pw name = (s', r)" and a2: "res_user r = Some u"
    by simp_all
  show "u = \<lparr>u_id = new_user_id E, u_email = Some email, u_name = Some name,
             u_role = Some RoleUser,
             createdAt = Some (clock_created E), updatedAt = clock_updated E,
             profile = Some \<lparr>company = None, phone = None, address = None, timezone = None,
               notificationPreferences = Some \<lparr>np_email = True, sms = False, billing = True,
                 maintenance = False, security = True\<rparr>\<rparr>\<rparr>"
    using register_returns_projection(1) [OF a1 a2]
    by (simp add: userWithoutPassword_fields new_user_def)
  show "\<exists>x \<in> snd ` set (users s'). u = userWithoutPassword x"
    using register_returns_projection(2) [OF a1 a2] .
next
  assume "authenticateUser D E s email pw = (s', r) \<and> res_user r = Some u"
  then have "authenticateUser D E s email pw = (s', r)" and "res_user r = Some u"
    by simp_all
  then show "\<exists>x \<in> snd ` set (users s'). u = userWithoutPassword x"
    by (rule login_returns_projection)
next
  assume "getUserById s uid = Some u"
  then show "\<exists>x \<in> snd ` set (users s). u = userWithoutPassword x"
    by (rule getUserById_projection)
next
  assume "getUserByToken D now s token = Some u"
  then show "\<exists>x \<in> snd ` set (users s). u = userWithoutPassword x"
    by (rule getUserByToken_projection)
next
  assume "updateUser now s uid updates = (s', ur) \<and> upd_user ur = Some u"
  then have "updateUser now s uid updates = (s', ur)" and "upd_user ur = Some u"
    by simp_all
  then show "\<exists>x \<in> snd ` set (users s'). u = userWithoutPassword x"
    by (rule update_returns_projection)
qed

theorem returned_users_carry_no_password_witness:
  "res_user (snd (registerUser demo_deps demo_effects demo_state
       ''new@x.com'' ''Str0ng!Pass'' ''New'')) = Some demo_registered
   \<and> (\<exists>x \<in> snd ` set (users (fst (registerUser demo_deps demo_effects demo_state
         ''new@x.com'' ''Str0ng!Pass'' ''New''))). demo_registered = userWithoutPassword x)
   \<and> res_user (snd (authenticateUser demo_deps demo_effects demo_state
       ''user@demo.com'' ''user123!'')) = Some demo_account2
   \<and> (\<exists>x \<in> snd ` set (users (fst (authenticateUser demo_deps demo_effects demo_state
         ''user@demo.com'' ''user123!''))). demo_account2 = userWithoutPassword x)
   \<and> getUserById demo_state ''2'' = Some demo_account2
   \<and> getUserByToken demo_deps 6000 demo_state demo_token = Some demo_account2
   \<and> (\<exists>x \<in> snd ` set (users demo_state). demo_account2 = userWithoutPassword x)
   \<and> upd_user (snd (updateUser 7000 demo_state ''2'' (demo_email_update ''fresh@demo.com'')))
       = Some (demo_account2\<lparr>u_email := Some ''fresh@demo.com'', updatedAt := 7000\<rparr>)
   \<and> (\<exists>x \<in> snd ` set (users (fst (updateUser 7000 demo_state ''2''
         (demo_email_update ''fresh@demo.com'')))).
         demo_account2\<lparr>u_email := Some ''fresh@demo.com'', updatedAt := 7000\<rparr> = userWithoutPassword x)"
proof -
  let ?reg = "registerUser demo_deps demo_effects demo_state ''new@x.com'' ''Str0ng!Pass'' ''New''"
  let ?log = "authenticateUser demo_deps demo_effects demo_state ''user@demo.com'' ''user123!''"
  let ?upd = "updateUser 7000 demo_state ''2'' (demo_email_update ''fresh@demo.com'')"
  note t = returned_users_carry_no_password
  have h1: "res_user (snd ?reg) = Some demo_registered" by code_simp
  have h2: "res_user (snd ?log) = Some demo_account2" by code_simp
  have h3: "getUserById demo_state ''2'' = Some demo_account2" by code_simp
  have h4: "getUserByToken demo_deps 6000 demo_state demo_token = Some demo_account2"
    by code_simp
  have h5: "upd_user (snd ?upd)
       = Some (demo_account2\<lparr>u_email := Some ''fresh@demo.com'', updatedAt := 7000\<rparr>)"
    by code_simp
  have p1: "?reg = (fst ?reg, snd ?reg)" and p2: "?log = (fst ?log, snd ?log)"
    and p3: "?upd = (fst ?upd, snd ?upd)"
    by simp_all
  note c1 = t [THEN conjunct2, THEN conjunct2, THEN conjunct1, THEN mp, OF conjI,
      OF p1 h1, THEN conjunct2]
  note c2 = t [THEN conjunct2, THEN conjunct2, THEN conjunct2, THEN conjunct1, THEN mp,
      OF conjI, OF p2 h2]
  note c3 = t [THEN conjunct2, THEN conjunct2, THEN conjunct2, THEN conjunct2, THEN conjunct2,
      THEN conjunct1, THEN mp, OF h4]
  note c4 = t [THEN conjunct2, THEN conjunct2, THEN conjunct2, THEN conjunct2, THEN conjunct2,
      THEN conjunct2, THEN mp, OF conjI, OF p3 h5]
  from h1 c1 h2 c2 h3 h4 c3 h5 c4 show ?thesis by (intro conjI)
qed

end
